theory Spec2Isabelle
  imports Complex_Main "HOL-Library.Word"
begin

section \<open>Data model of \<open>src/App.tsx\<close>\<close>

text \<open>
  JavaScript numbers are idealised as \<^typ>\<open>real\<close>: rounding of IEEE doubles is not
  modelled. The two values a double computation of this program can take outside the reals
  are written out where the code can produce them: \<open>undefined\<close> (a typed-array read out of
  range) and \<open>NaN\<close> (arithmetic on \<open>undefined\<close>, and \<open>0 / 0\<close>) are \<open>None\<close> of an
  \<open>option\<close>. A \<open>Uint8Array\<close> is a list of 8-bit words, a \<open>Float32Array\<close> a list of reals.
\<close>

type_synonym byte = "8 word"

datatype error = TypeError

datatype WaveformStyle =
  Line | GradientLine | ReflectedLine | Equalizer | SymmetricBars | BottomBars | Circle | Pulse

record ColorPreset =
  name :: string
  colors :: "string list"

definition COLOR_PRESETS :: "ColorPreset list" where
  "COLOR_PRESETS =
    [\<lparr>name = ''Synthwave'', colors = [''#ec4899'', ''#6d28d9'']\<rparr>,
     \<lparr>name = ''Ocean'', colors = [''#38bdf8'', ''#34d399'']\<rparr>,
     \<lparr>name = ''Sunset'', colors = [''#f97316'', ''#ec4899'']\<rparr>,
     \<lparr>name = ''Emerald'', colors = [''#34d399'']\<rparr>,
     \<lparr>name = ''Sky'', colors = [''#38bdf8'']\<rparr>,
     \<lparr>name = ''Fuchsia'', colors = [''#d946ef'']\<rparr>]"

definition CANVAS_WIDTH :: nat where "CANVAS_WIDTH = 1280"
definition CANVAS_HEIGHT :: nat where "CANVAS_HEIGHT = 720"

text \<open>The decoded signal: \<open>getChannelData(0)\<close>, \<open>sampleRate\<close> and \<open>duration\<close> of an \<open>AudioBuffer\<close>.\<close>

record AudioBuffer =
  channelData :: "real list"
  sampleRate :: real
  duration :: real

text \<open>An \<open>AnalyserNode\<close>; the Web Audio API defines \<open>frequencyBinCount\<close> as half of \<open>fftSize\<close>.\<close>

record AnalyserNode =
  fftSize :: nat

definition frequencyBinCount :: "AnalyserNode \<Rightarrow> nat" where
  "frequencyBinCount a = fftSize a div 2"

subsection \<open>The 2D canvas context\<close>

text \<open>
  A \<open>CanvasGradient\<close> is its axis (or pair of circles) and the colour stops added so far.
  \<open>fillStyle\<close> and \<open>strokeStyle\<close> hold a colour string or a gradient.
\<close>

datatype GradientAxis =
  Linear real real real real
  | Radial real real real real real real

record CanvasGradient =
  axis :: GradientAxis
  stops :: "(real \<times> string) list"

datatype StyleValue = Color string | Gradient CanvasGradient

datatype Segment =
  MoveTo real real
  | LineTo real real
  | Arc real real real real real

text \<open>
  The bitmap is kept symbolically: the drawing operations that reached it since it was last
  cleared, in order, each with the style, line width and alpha in force when it was issued.
  The pixels of a frame are a function of this list and of the canvas size.
\<close>

datatype Paint =
  ClearRect real real real real
  | FillRect StyleValue real real real real real
  | Fill StyleValue real "Segment list"
  | Stroke StyleValue real real "Segment list"

record Context2D =
  width :: nat
  height :: nat
  fillStyle :: StyleValue
  strokeStyle :: StyleValue
  lineWidth :: real
  globalAlpha :: real
  path :: "Segment list"
  painted :: "Paint list"

definition clearRect :: "real \<Rightarrow> real \<Rightarrow> real \<Rightarrow> real \<Rightarrow> Context2D \<Rightarrow> Context2D" where
  "clearRect x y w h c =
    (if x \<le> 0 \<and> y \<le> 0 \<and> real (width c) \<le> x + w \<and> real (height c) \<le> y + h
     then c\<lparr>painted := []\<rparr>
     else c\<lparr>painted := painted c @ [ClearRect x y w h]\<rparr>)"

definition fillRect :: "real \<Rightarrow> real \<Rightarrow> real \<Rightarrow> real \<Rightarrow> Context2D \<Rightarrow> Context2D" where
  "fillRect x y w h c = c\<lparr>painted := painted c @ [FillRect (fillStyle c) (globalAlpha c) x y w h]\<rparr>"

text \<open>
  Assigning \<open>undefined\<close> (or a string that is no colour, such as \<open>'undefined33'\<close>) to
  \<open>fillStyle\<close> or \<open>strokeStyle\<close> is ignored by the canvas; \<open>None\<close> is that value.
\<close>

definition set_fillStyle :: "StyleValue option \<Rightarrow> Context2D \<Rightarrow> Context2D" where
  "set_fillStyle v c = (case v of None \<Rightarrow> c | Some s \<Rightarrow> c\<lparr>fillStyle := s\<rparr>)"

definition set_strokeStyle :: "StyleValue option \<Rightarrow> Context2D \<Rightarrow> Context2D" where
  "set_strokeStyle v c = (case v of None \<Rightarrow> c | Some s \<Rightarrow> c\<lparr>strokeStyle := s\<rparr>)"

definition beginPath :: "Context2D \<Rightarrow> Context2D" where
  "beginPath c = c\<lparr>path := []\<rparr>"

text \<open>\<open>arc\<close>, \<open>moveTo\<close> and \<open>lineTo\<close> return without effect when an argument is \<open>NaN\<close>.\<close>

definition arc :: "real \<Rightarrow> real \<Rightarrow> real option \<Rightarrow> real \<Rightarrow> real \<Rightarrow> Context2D \<Rightarrow> Context2D" where
  "arc x y radius startAngle endAngle c =
    (case radius of
       None \<Rightarrow> c
     | Some r \<Rightarrow> c\<lparr>path := path c @ [Arc x y r startAngle endAngle]\<rparr>)"

definition moveTo :: "real \<Rightarrow> real \<Rightarrow> Context2D \<Rightarrow> Context2D" where
  "moveTo x y c = c\<lparr>path := path c @ [MoveTo x y]\<rparr>"

definition lineTo :: "real option \<Rightarrow> real option \<Rightarrow> Context2D \<Rightarrow> Context2D" where
  "lineTo x y c =
    (case (x, y) of
       (Some x', Some y') \<Rightarrow> c\<lparr>path := path c @ [LineTo x' y']\<rparr>
     | _ \<Rightarrow> c)"

definition fill :: "Context2D \<Rightarrow> Context2D" where
  "fill c = c\<lparr>painted := painted c @ [Fill (fillStyle c) (globalAlpha c) (path c)]\<rparr>"

definition stroke :: "Context2D \<Rightarrow> Context2D" where
  "stroke c =
    c\<lparr>painted := painted c @ [Stroke (strokeStyle c) (lineWidth c) (globalAlpha c) (path c)]\<rparr>"

definition createLinearGradient :: "real \<Rightarrow> real \<Rightarrow> real \<Rightarrow> real \<Rightarrow> CanvasGradient" where
  "createLinearGradient x0 y0 x1 y1 = \<lparr>axis = Linear x0 y0 x1 y1, stops = []\<rparr>"

definition createRadialGradient ::
  "real \<Rightarrow> real \<Rightarrow> real \<Rightarrow> real \<Rightarrow> real \<Rightarrow> real \<Rightarrow> CanvasGradient" where
  "createRadialGradient x0 y0 r0 x1 y1 r1 = \<lparr>axis = Radial x0 y0 r0 x1 y1 r1, stops = []\<rparr>"

definition addColorStop :: "real \<Rightarrow> string \<Rightarrow> CanvasGradient \<Rightarrow> CanvasGradient" where
  "addColorStop offset color g = g\<lparr>stops := stops g @ [(offset, color)]\<rparr>"

subsection \<open>Array reads\<close>

text \<open>\<open>xs[i]\<close> for a loop counter \<open>i\<close>: \<open>undefined\<close> past the end.\<close>

definition nth_opt :: "'a list \<Rightarrow> nat \<Rightarrow> 'a option" where
  "nth_opt xs i = (if i < length xs then Some (xs ! i) else None)"

text \<open>
  \<open>xs[k]\<close> for a number \<open>k\<close> that need not be an index: \<open>undefined\<close> unless \<open>k\<close> is a
  whole number within \<open>0 .. length - 1\<close>.
\<close>

definition js_index :: "'a list \<Rightarrow> real \<Rightarrow> 'a option" where
  "js_index xs k =
    (if 0 \<le> k \<and> k = of_int \<lfloor>k\<rfloor> \<and> nat \<lfloor>k\<rfloor> < length xs then Some (xs ! nat \<lfloor>k\<rfloor>) else None)"

text \<open>\<open>selectedColorPreset.colors[0]\<close>, and the same with an alpha suffix appended.\<close>

definition firstColor :: "ColorPreset \<Rightarrow> StyleValue option" where
  "firstColor p = map_option Color (nth_opt (colors p) 0)"

definition firstColorWith :: "ColorPreset \<Rightarrow> string \<Rightarrow> StyleValue option" where
  "firstColorWith p suffix = map_option (\<lambda>c. Color (c @ suffix)) (nth_opt (colors p) 0)"

section \<open>\<open>drawWaveform\<close>\<close>

text \<open>
  \<open>selectedColorPreset.colors.forEach((color, index) => gradient.addColorStop(index /
  (selectedColorPreset.colors.length - 1), color))\<close>, written three times in the source.
\<close>

definition addColorStops :: "string list \<Rightarrow> CanvasGradient \<Rightarrow> CanvasGradient" where
  "addColorStops cs g =
    fold (\<lambda>(index, color). addColorStop (real index / (real (length cs) - 1)) color)
      (enumerate 0 cs) g"

definition getActiveStyle :: "ColorPreset \<Rightarrow> real \<Rightarrow> real \<Rightarrow> StyleValue option" where
  "getActiveStyle selectedColorPreset y1 y2 =
    (if length (colors selectedColorPreset) > 1
     then Some (Gradient (addColorStops (colors selectedColorPreset)
                            (createLinearGradient 0 y1 0 y2)))
     else firstColor selectedColorPreset)"

text \<open>
  \<open>getActiveStyle\<close> called with \<open>NaN\<close> arguments: \<open>createLinearGradient\<close> takes restricted
  doubles and throws a \<open>TypeError\<close> on \<open>NaN\<close>; the solid branch does not look at them.
\<close>

definition getActiveStyle_NaN :: "ColorPreset \<Rightarrow> error + StyleValue option" where
  "getActiveStyle_NaN selectedColorPreset =
    (if length (colors selectedColorPreset) > 1 then Inl TypeError
     else Inr (firstColor selectedColorPreset))"

subsection \<open>Equalizer, SymmetricBars, BottomBars\<close>

text \<open>
  \<open>analyserNode.current!.frequencyBinCount / 4\<close> reads the session's analyser ref; on
  \<open>null\<close> the property read throws a \<open>TypeError\<close>.
\<close>

definition barCountOf :: "AnalyserNode option \<Rightarrow> WaveformStyle \<Rightarrow> error + real" where
  "barCountOf analyserNode style =
    (if style = Equalizer
     then (case analyserNode of
             None \<Rightarrow> Inl TypeError
           | Some a \<Rightarrow> Inr (real (frequencyBinCount a) / 4))
     else Inr 128)"

text \<open>\<open>Math.pow(freqData[i] / 255, 2) * height\<close>; \<open>NaN\<close> when \<open>freqData[i]\<close> is \<open>undefined\<close>.\<close>

definition barHeightAt :: "byte list \<Rightarrow> real \<Rightarrow> nat \<Rightarrow> real option" where
  "barHeightAt freqData h i = map_option (\<lambda>v. (real (unat v) / 255)\<^sup>2 * h) (nth_opt freqData i)"

text \<open>One iteration of the bar loop. \<open>fillRect\<close> with a \<open>NaN\<close> argument draws nothing.\<close>

definition drawBar ::
  "WaveformStyle \<Rightarrow> ColorPreset \<Rightarrow> byte list \<Rightarrow> real \<Rightarrow> real \<Rightarrow> nat \<Rightarrow> Context2D \<Rightarrow> Context2D" where
  "drawBar style selectedColorPreset freqData barWidth barGap i c =
    (let h = real (height c);
         x = real i * (barWidth + barGap);
         c1 = set_fillStyle (getActiveStyle selectedColorPreset (h / 2) h) c
     in case barHeightAt freqData h i of
          None \<Rightarrow> c1
        | Some barHeight \<Rightarrow>
            if style = BottomBars then fillRect x (h - barHeight) barWidth barHeight c1
            else fillRect x ((h - barHeight) / 2) barWidth barHeight c1)"

text \<open>
  \<open>for (let i = 0; i < barCount; i++)\<close>: the counter runs over the naturals below
  \<open>barCount\<close>, that is below its ceiling.
\<close>

definition drawBars ::
  "AnalyserNode option \<Rightarrow> WaveformStyle \<Rightarrow> ColorPreset \<Rightarrow> byte list \<Rightarrow> Context2D
    \<Rightarrow> error + Context2D" where
  "drawBars analyserNode style selectedColorPreset freqData c =
    (case barCountOf analyserNode style of
       Inl e \<Rightarrow> Inl e
     | Inr barCount \<Rightarrow>
         let barGap = (if style = Equalizer then 1 else 4);
             barWidth = (real (width c) - (barCount - 1) * barGap) / barCount
         in Inr (fold (drawBar style selectedColorPreset freqData barWidth barGap)
                  [0..<nat \<lceil>barCount\<rceil>] c))"

subsection \<open>Pulse\<close>

definition bassFrequencies :: "byte list \<Rightarrow> nat" where
  "bassFrequencies freqData = nat \<lfloor>real (length freqData) * (1 / 10)\<rfloor>"

definition bassSum :: "byte list \<Rightarrow> real" where
  "bassSum freqData =
    fold (\<lambda>i s. s + real (unat (freqData ! i))) [0..<bassFrequencies freqData] 0"

text \<open>\<open>bassSum / bassFrequencies\<close>; with no bass bin this is \<open>0 / 0\<close>, which is \<open>NaN\<close>.\<close>

definition bassAvg :: "byte list \<Rightarrow> real option" where
  "bassAvg freqData =
    (if bassFrequencies freqData = 0 then None
     else Some (bassSum freqData / real (bassFrequencies freqData)))"

definition pulseRadius :: "real \<Rightarrow> byte list \<Rightarrow> real option" where
  "pulseRadius h freqData =
    (let baseRadius = h * (1 / 10)
     in map_option (\<lambda>avg. baseRadius + (avg / 255) * h * (1 / 2)) (bassAvg freqData))"

definition drawPulse :: "ColorPreset \<Rightarrow> byte list \<Rightarrow> Context2D \<Rightarrow> error + Context2D" where
  "drawPulse selectedColorPreset freqData c =
    (let h = real (height c);
         centerX = real (width c) / 2;
         centerY = h / 2;
         r = pulseRadius h freqData;
         c1 = set_fillStyle (firstColorWith selectedColorPreset ''33'') c
     in case (case r of
                None \<Rightarrow> getActiveStyle_NaN selectedColorPreset
              | Some r' \<Rightarrow> Inr (getActiveStyle selectedColorPreset (centerY - r') (centerY + r'))) of
          Inl e \<Rightarrow> Inl e
        | Inr s \<Rightarrow>
            let c2 = (set_strokeStyle s c1)\<lparr>lineWidth := 3\<rparr>;
                c3 = stroke (fill (arc centerX centerY r 0 (2 * pi) (beginPath c2)));
                c4 = (set_strokeStyle (firstColorWith selectedColorPreset ''80'') c3)\<lparr>lineWidth := 1\<rparr>;
                c5 = stroke (arc centerX centerY (Some (h * (1 / 4))) 0 (2 * pi) (beginPath c4));
                c6 = stroke (arc centerX centerY (Some (h * (4 / 10))) 0 (2 * pi) (beginPath c5))
            in Inr c6)"

subsection \<open>Circle\<close>

definition circleStrokeStyle :: "ColorPreset \<Rightarrow> real \<Rightarrow> real \<Rightarrow> real \<Rightarrow> real \<Rightarrow> StyleValue option" where
  "circleStrokeStyle selectedColorPreset centerX centerY radius h =
    (if length (colors selectedColorPreset) > 1
     then Some (Gradient (addColorStops (colors selectedColorPreset)
                  (createRadialGradient centerX centerY radius centerX centerY (radius + h / 2))))
     else firstColor selectedColorPreset)"

definition drawTick :: "byte list \<Rightarrow> nat \<Rightarrow> Context2D \<Rightarrow> Context2D" where
  "drawTick freqData i c =
    (let h = real (height c);
         radius = h / 4;
         numBars = 360;
         centerX = real (width c) / 2;
         centerY = h / 2;
         dataIndex = nat \<lfloor>real i / numBars * real (length freqData)\<rfloor>;
         amplitude = nth_opt freqData dataIndex;
         barHeight = map_option (\<lambda>a. (real (unat a) / 255)\<^sup>2 * h * (3 / 4)) amplitude;
         angle = (real i / numBars) * 2 * pi;
         x1 = centerX + cos angle * radius;
         y1 = centerY + sin angle * radius;
         x2 = map_option (\<lambda>b. centerX + cos angle * (radius + b)) barHeight;
         y2 = map_option (\<lambda>b. centerY + sin angle * (radius + b)) barHeight
     in stroke (lineTo x2 y2 (moveTo x1 y1 (beginPath c))))"

definition drawCircle :: "ColorPreset \<Rightarrow> byte list \<Rightarrow> Context2D \<Rightarrow> Context2D" where
  "drawCircle selectedColorPreset freqData c =
    (let h = real (height c);
         radius = h / 4;
         centerX = real (width c) / 2;
         centerY = h / 2;
         c1 = (set_strokeStyle (circleStrokeStyle selectedColorPreset centerX centerY radius h) c)
                \<lparr>lineWidth := 2\<rparr>
     in fold (drawTick freqData) [0..<360] c1)"

subsection \<open>Line, GradientLine, ReflectedLine\<close>

definition lineStrokeStyle :: "WaveformStyle \<Rightarrow> ColorPreset \<Rightarrow> real \<Rightarrow> StyleValue option" where
  "lineStrokeStyle style selectedColorPreset w =
    (if style = Line then firstColor selectedColorPreset
     else if length (colors selectedColorPreset) > 1
       then Some (Gradient (addColorStops (colors selectedColorPreset)
                    (createLinearGradient 0 0 w 0)))
       else firstColor selectedColorPreset)"

text \<open>\<open>data[sampleIndex] || 0\<close>: \<open>undefined\<close> (and a stored zero) give \<open>0\<close>.\<close>

definition amplitudeAt :: "real list \<Rightarrow> real \<Rightarrow> real" where
  "amplitudeAt data sampleIndex = (case js_index data sampleIndex of None \<Rightarrow> 0 | Some a \<Rightarrow> a)"

definition lineY :: "real list \<Rightarrow> real \<Rightarrow> bool \<Rightarrow> real \<Rightarrow> nat \<Rightarrow> real" where
  "lineY data startSample reflection h i =
    (let sampleIndex = startSample + real i;
         amplitude = amplitudeAt data sampleIndex
     in ((if reflection then - amplitude else amplitude) * h / 4) + h / 2)"

definition linePoint :: "real list \<Rightarrow> real \<Rightarrow> bool \<Rightarrow> nat \<Rightarrow> Context2D \<Rightarrow> Context2D" where
  "linePoint data startSample reflection i c =
    (let x = real i;
         y = lineY data startSample reflection (real (height c)) i
     in if i = 0 then moveTo x y c else lineTo (Some x) (Some y) c)"

definition startSampleOf :: "nat \<Rightarrow> int \<Rightarrow> real" where
  "startSampleOf samplesToDraw currentSampleIndex =
    max 0 (real_of_int currentSampleIndex - real samplesToDraw / 2)"

definition drawLine :: "real list \<Rightarrow> int \<Rightarrow> bool \<Rightarrow> Context2D \<Rightarrow> Context2D" where
  "drawLine data currentSampleIndex reflection c =
    (let samplesToDraw = nat \<lfloor>real (width c)\<rfloor>;
         startSample = startSampleOf samplesToDraw currentSampleIndex
     in stroke (fold (linePoint data startSample reflection) [0..<samplesToDraw] (beginPath c)))"

definition drawLines ::
  "WaveformStyle \<Rightarrow> ColorPreset \<Rightarrow> real list \<Rightarrow> int \<Rightarrow> Context2D \<Rightarrow> Context2D" where
  "drawLines style selectedColorPreset data currentSampleIndex c =
    (let c1 = set_strokeStyle (lineStrokeStyle style selectedColorPreset (real (width c)))
                (c\<lparr>lineWidth := 2\<rparr>);
         c2 = drawLine data currentSampleIndex False c1
     in if style = ReflectedLine
        then (drawLine data currentSampleIndex True (c2\<lparr>globalAlpha := 1 / 2\<rparr>))\<lparr>globalAlpha := 1\<rparr>
        else c2)"

subsection \<open>The renderer\<close>

text \<open>
  \<open>analyserNode\<close> is the component's ref of that name, which the \<open>Equalizer\<close> branch reads;
  the other arguments are the parameters of the source function, in its order.
\<close>

definition background :: "bool \<Rightarrow> Context2D \<Rightarrow> Context2D" where
  "background isTransparentBg context =
    (let w = real (width context);
         h = real (height context);
         c1 = clearRect 0 0 w h context
     in if \<not> isTransparentBg
        then fillRect 0 0 w h (set_fillStyle (Some (Color ''#111827'')) c1)
        else c1)"

definition drawWaveform ::
  "AnalyserNode option \<Rightarrow> Context2D \<Rightarrow> AudioBuffer \<Rightarrow> real \<Rightarrow> WaveformStyle \<Rightarrow> ColorPreset
    \<Rightarrow> bool \<Rightarrow> byte list option \<Rightarrow> error + Context2D" where
  "drawWaveform analyserNode context buffer currentTime style selectedColorPreset
      isTransparentBg freqData =
    (let data = channelData buffer;
         currentSampleIndex = \<lfloor>currentTime * sampleRate buffer\<rfloor>;
         c = background isTransparentBg context
     in if style = Equalizer \<or> style = SymmetricBars \<or> style = BottomBars then
          (case freqData of
             None \<Rightarrow> Inr c
           | Some fd \<Rightarrow> drawBars analyserNode style selectedColorPreset fd c)
        else if style = Pulse then
          (case freqData of
             None \<Rightarrow> Inr c
           | Some fd \<Rightarrow> drawPulse selectedColorPreset fd c)
        else if style = Circle then
          (case freqData of
             None \<Rightarrow> Inr c
           | Some fd \<Rightarrow> Inr (drawCircle selectedColorPreset fd c))
        else Inr (drawLines style selectedColorPreset data currentSampleIndex c))"

section \<open>The component's state, file loading and export\<close>

text \<open>
  The React state and refs of \<open>App\<close> that the functions below read or write. \<open>canvasRef\<close>
  holds the canvas' 2D context; \<open>None\<close> stands for a missing canvas or a \<open>null\<close> context.
\<close>

record App =
  fileName :: string
  audioBuffer :: "AudioBuffer option"
  isLoading :: bool
  errorText :: string
  isPlaying :: bool
  waveformStyle :: WaveformStyle
  colorPreset :: ColorPreset
  isTransparent :: bool
  isExporting :: bool
  exportProgress :: real
  exportedVideoUrl :: "string option"
  canvasRef :: "Context2D option"
  analyserNode :: "AnalyserNode option"
  frequencyData :: "byte list option"

text \<open>The state after mounting: the \<open>useState\<close> and \<open>useRef\<close> initial values and a fresh canvas.\<close>

definition initialContext :: Context2D where
  "initialContext =
    \<lparr>width = CANVAS_WIDTH, height = CANVAS_HEIGHT, fillStyle = Color ''#000000'',
     strokeStyle = Color ''#000000'', lineWidth = 1, globalAlpha = 1, path = [], painted = []\<rparr>"

definition initialApp :: App where
  "initialApp =
    \<lparr>fileName = [], audioBuffer = None, isLoading = False, errorText = [], isPlaying = False,
     waveformStyle = Equalizer, colorPreset = COLOR_PRESETS ! 0, isTransparent = False,
     isExporting = False, exportProgress = 0, exportedVideoUrl = None,
     canvasRef = Some initialContext, analyserNode = None, frequencyData = None\<rparr>"

text \<open>
  \<open>handleFileChange\<close>, with its awaits run to completion: \<open>selectedFile\<close> is the chosen
  file's name (\<open>None\<close> when the input event carries no file) and \<open>decoded\<close> the outcome of
  \<open>arrayBuffer\<close> and \<open>decodeAudioData\<close> (\<open>None\<close> when either rejects). The analyser is
  created once, with \<open>fftSize = 2048\<close>, after the first successful decode.
\<close>

definition handleFileChange :: "string option \<Rightarrow> AudioBuffer option \<Rightarrow> App \<Rightarrow> App" where
  "handleFileChange selectedFile decoded s =
    (case selectedFile of
       None \<Rightarrow> s
     | Some f \<Rightarrow>
         let s1 = s\<lparr>isLoading := True, errorText := [], fileName := f, audioBuffer := None,
                    isPlaying := False, exportedVideoUrl := None\<rparr>
         in (case decoded of
              None \<Rightarrow>
                s1\<lparr>errorText := ''Failed to decode audio file. Please try a different MP3 or MP4 file.'',
                   isLoading := False\<rparr>
            | Some decodedBuffer \<Rightarrow>
                let s2 = s1\<lparr>audioBuffer := Some decodedBuffer\<rparr>;
                    s3 = (if analyserNode s2 = None
                          then let analyser = \<lparr>fftSize = 2048\<rparr>
                               in s2\<lparr>analyserNode := Some analyser,
                                     frequencyData := Some (replicate (frequencyBinCount analyser) 0)\<rparr>
                          else s2)
                in s3\<lparr>isLoading := False\<rparr>))"

subsection \<open>Export\<close>

text \<open>
  What one call of \<open>handleExport\<close> creates and its \<open>recordAnimation\<close> closure owns: the
  captured buffer and configuration, the \<open>MediaRecorder\<close> (its state, and whether the
  \<open>stop\<close> event that \<open>recorder.stop()\<close> queues is still to be delivered), the buffer source,
  the stream's tracks, and whether an animation-frame callback of this export is pending.
  \<open>renderedAt\<close>
  and \<open>progressCalls\<close> are history: the positions passed to \<open>drawWaveform\<close> and the arguments
  passed to \<open>setExportProgress\<close> by this export's loop, in order.
\<close>

datatype RecordingState = inactive | recording

record ExportJob =
  jobBuffer :: AudioBuffer
  jobStyle :: WaveformStyle
  jobPreset :: ColorPreset
  jobTransparent :: bool
  mimeType :: string
  recorder :: RecordingState
  stopEventPending :: bool
  bufferSourcePlaying :: bool
  tracksLive :: bool
  scheduled :: bool
  renderedAt :: "real list"
  progressCalls :: "real list"

text \<open>
  \<open>handleExport\<close> returns at once without a canvas or a buffer; it has no other guard.
  Otherwise it starts recorder and source and requests the first animation frame.
\<close>

definition handleExport :: "App \<Rightarrow> App \<times> ExportJob option" where
  "handleExport s =
    (case (canvasRef s, audioBuffer s) of
       (Some canvas, Some buffer) \<Rightarrow>
         (s\<lparr>isExporting := True, exportProgress := 0, exportedVideoUrl := None\<rparr>,
          Some \<lparr>jobBuffer = buffer, jobStyle = waveformStyle s, jobPreset = colorPreset s,
                jobTransparent = isTransparent s,
                mimeType = (if isTransparent s then ''video/webm; codecs=vp9,opus''
                            else ''video/webm; codecs=vp8,opus''),
                recorder = recording, stopEventPending = False, bufferSourcePlaying = True,
                tracksLive = True,
                scheduled = True, renderedAt = [], progressCalls = []\<rparr>)
     | _ \<Rightarrow> (s, None))"

text \<open>
  The export control of the page: the \<open>Create Video\<close> button is part of the rendered page
  only under \<open>audioBuffer && !isExporting\<close> and is disabled while \<open>isLoading\<close>, all three as
  of the state the page was rendered from.
\<close>

definition exportButtonEnabled :: "App \<Rightarrow> bool" where
  "exportButtonEnabled s = (audioBuffer s \<noteq> None \<and> \<not> isExporting s \<and> \<not> isLoading s)"

text \<open>\<open>recorder.onstop\<close>, delivered by the browser after \<open>recorder.stop()\<close>.\<close>

definition onstop :: "string \<Rightarrow> App \<Rightarrow> App" where
  "onstop url s = s\<lparr>exportedVideoUrl := Some url, isExporting := False\<rparr>"

text \<open>
  One run of the callback \<open>recordAnimation(startTime)\<close>: \<open>now\<close> is what \<open>performance.now()\<close>
  returns in it and \<open>spectrum\<close> what \<open>getByteFrequencyData\<close> writes into the export's own
  array. An exception of \<open>drawWaveform\<close> leaves the callback before it reports progress or
  requests another frame.
\<close>

definition elapsedTimeOf :: "real \<Rightarrow> real \<Rightarrow> real" where
  "elapsedTimeOf startTime now = (now - startTime) / 1000"

definition recordAnimation ::
  "real \<Rightarrow> real \<Rightarrow> byte list \<Rightarrow> App \<times> ExportJob \<Rightarrow> error + App \<times> ExportJob" where
  "recordAnimation startTime now spectrum sj =
    (let s = fst sj; j = snd sj;
         elapsedTime = elapsedTimeOf startTime now
     in if elapsedTime < duration (jobBuffer j) then
          (case (case canvasRef s of
                   None \<Rightarrow> Inr (s, j)
                 | Some context \<Rightarrow>
                     (case drawWaveform (analyserNode s) context (jobBuffer j) elapsedTime
                             (jobStyle j) (jobPreset j) (jobTransparent j) (Some spectrum) of
                        Inl e \<Rightarrow> Inl e
                      | Inr context' \<Rightarrow>
                          Inr (s\<lparr>canvasRef := Some context'\<rparr>,
                               j\<lparr>renderedAt := renderedAt j @ [elapsedTime]\<rparr>))) of
             Inl e \<Rightarrow> Inl e
           | Inr (s1, j1) \<Rightarrow>
               let p = (elapsedTime / duration (jobBuffer j)) * 100
               in Inr (s1\<lparr>exportProgress := p\<rparr>,
                       j1\<lparr>progressCalls := progressCalls j1 @ [p], scheduled := True\<rparr>))
        else
          Inr (s\<lparr>exportProgress := 100\<rparr>,
               j\<lparr>bufferSourcePlaying := False, recorder := inactive, stopEventPending := True,
                 tracksLive := False, progressCalls := progressCalls j @ [100],
                 scheduled := False\<rparr>))"

text \<open>
  The animation-frame callbacks of one export, in the order the browser runs them: each
  element of \<open>ticks\<close> is the clock reading and the spectrum of one callback. \<open>startTime\<close> is
  the reading the first callback takes before it calls \<open>recordAnimation\<close>. A callback runs
  only if the previous one requested it.
\<close>

fun exportLoop ::
  "real \<Rightarrow> (real \<times> byte list) list \<Rightarrow> App \<times> ExportJob \<Rightarrow> error + App \<times> ExportJob" where
  "exportLoop startTime [] sj = Inr sj"
| "exportLoop startTime (tick # ticks) sj =
    (if scheduled (snd sj)
     then (case recordAnimation startTime (fst tick) (snd tick) sj of
             Inl e \<Rightarrow> Inl e
           | Inr sj' \<Rightarrow> exportLoop startTime ticks sj')
     else Inr sj)"

text \<open>What a call of the renderer leaves on the canvas: the frame, or the exception.\<close>

definition frameOf :: "error + Context2D \<Rightarrow> error + Paint list" where
  "frameOf r = (case r of Inl e \<Rightarrow> Inl e | Inr c \<Rightarrow> Inr (painted c))"

section \<open>The specification's resampling, and example inputs\<close>

text \<open>
  Following the specification's words, not the source: resampling a snapshot of length \<open>N\<close>
  to \<open>M\<close> samples maps output index \<open>i\<close> to input index \<open>floor(i / M * N)\<close>, and a bar
  drawn from 128 resampled bins has the shaped amplitude of that bin as its height.
\<close>

definition resampleIndex :: "nat \<Rightarrow> nat \<Rightarrow> nat \<Rightarrow> nat" where
  "resampleIndex N M i = nat \<lfloor>real i / real M * real N\<rfloor>"

definition resampledBarHeight :: "byte list \<Rightarrow> real \<Rightarrow> nat \<Rightarrow> real" where
  "resampledBarHeight fd h i = (real (unat (fd ! resampleIndex (length fd) 128 i)) / 255)\<^sup>2 * h"

text \<open>
  Example inputs: a snapshot of 1024 bins (the \<open>frequencyBinCount\<close> of \<open>fftSize = 2048\<close>)
  that is silent except for bin 1, a snapshot with every bin at 255, and a signal of three
  seconds at 44.1 kHz (132300 samples).
\<close>

definition spikeSnapshot :: "byte list" where
  "spikeSnapshot = 0 # 255 # replicate 1022 0"

definition loudSnapshot :: "byte list" where
  "loudSnapshot = replicate 1024 255"

definition exampleBuffer :: AudioBuffer where
  "exampleBuffer =
    \<lparr>channelData = [0, 1 / 2, - 1 / 2, 1] @ replicate 132296 0, sampleRate = 44100, duration = 3\<rparr>"

section \<open>Contexts that agree on what a frame depends on\<close>

text \<open>
  Two contexts agree as canvases when they have the same size, global alpha and bitmap; they
  agree as pens when they also have the same stroke style and line width.
\<close>

definition sameCanvas :: "Context2D \<Rightarrow> Context2D \<Rightarrow> bool" where
  "sameCanvas c1 c2 =
    (width c1 = width c2 \<and> height c1 = height c2 \<and> globalAlpha c1 = globalAlpha c2
     \<and> painted c1 = painted c2)"

definition samePen :: "Context2D \<Rightarrow> Context2D \<Rightarrow> bool" where
  "samePen c1 c2 = (sameCanvas c1 c2 \<and> strokeStyle c1 = strokeStyle c2 \<and> lineWidth c1 = lineWidth c2)"

section \<open>Export: reported progress and example runs\<close>


text \<open>
  Example states and runs: the session after loading the example signal; the export that a
  click on \<open>Create Video\<close> starts there; and the clock readings and
  spectra of three runs of callbacks, with the first reading \<open>startTime = 1000\<close> ms: one with
  a callback every 16 ms, one with a late third callback, and one that runs past the
  signal's three seconds.
\<close>

definition loadedApp :: App where
  "loadedApp = handleFileChange (Some ''song.mp3'') (Some exampleBuffer) initialApp"

definition startedExport :: "App \<times> ExportJob" where
  "startedExport = (fst (handleExport loadedApp), the (snd (handleExport loadedApp)))"

definition steadyTicks :: "(real \<times> byte list) list" where
  "steadyTicks = [(1000, loudSnapshot), (1016, loudSnapshot), (1032, loudSnapshot)]"

definition jitterTicks :: "(real \<times> byte list) list" where
  "jitterTicks = [(1000, loudSnapshot), (1016, loudSnapshot), (1050, loudSnapshot)]"


section \<open>The page: rendered state, current state and events\<close>

text \<open>
  A React component renders from the state of its last render: the JSX (which buttons
  exist) and the closures of the handlers (\<open>handleExport\<close>, \<open>animate\<close>, the effect, the
  \<open>onClick\<close> and \<open>onChange\<close> arrows) hold the values of \<open>audioBuffer\<close>, \<open>waveformStyle\<close>,
  \<open>colorPreset\<close>, \<open>isTransparent\<close>, \<open>isExporting\<close>, \<open>isLoading\<close> of that render, while the state
  setters write the current state, which the page shows only after its next render. The
  refs (\<open>canvasRef\<close>, \<open>analyserNode\<close>, \<open>frequencyData\<close>) are shared objects and are always read
  at their current value. \<open>view\<close> is the state of the last render, \<open>state\<close> the current
  state together with the refs; the ref fields of \<open>view\<close> are never read.
\<close>

record Page =
  view :: App
  state :: App

definition initialPage :: Page where
  "initialPage = \<lparr>view = initialApp, state = initialApp\<rparr>"

text \<open>A render of the component: the page now shows the current state.\<close>

definition render :: "Page \<Rightarrow> Page" where
  "render p = p\<lparr>view := state p\<rparr>"

text \<open>
  A click on \<open>Create Video\<close>. The button is in the page under the rendered
  \<open>audioBuffer && !isExporting\<close> and enabled under the rendered \<open>!isLoading\<close>; without it the
  click reaches no handler. With it, \<open>handleExport\<close> runs on the rendered \<open>audioBuffer\<close>,
  style, preset and transparency and on the current \<open>canvasRef\<close>; it reads no
  \<open>isExporting\<close>. Its three setters (\<open>setIsExporting(true)\<close>, \<open>setExportProgress(0)\<close>,
  \<open>setExportedVideoUrl(null)\<close>) write the current state; the page still shows the button
  until the next render.
\<close>

definition clickCreateVideo :: "Page \<Rightarrow> Page \<times> ExportJob option" where
  "clickCreateVideo p =
    (if exportButtonEnabled (view p)
     then (case snd (handleExport ((view p)\<lparr>canvasRef := canvasRef (state p)\<rparr>)) of
             None \<Rightarrow> (p, None)
           | Some j \<Rightarrow>
               (p\<lparr>state := (state p)\<lparr>isExporting := True, exportProgress := 0,
                                      exportedVideoUrl := None\<rparr>\<rparr>,
                Some j))
     else (p, None))"

text \<open>
  A call of the renderer by the page, with the arguments of the call given: every call
  site (\<open>animate\<close>, the effect, \<open>recordAnimation\<close>) passes the 2D context of the canvas in
  \<open>canvasRef\<close>, and \<open>drawWaveform\<close> reads the ref \<open>analyserNode\<close>. \<open>None\<close>: there is no canvas,
  and no call.
\<close>

definition renderCall ::
  "Page \<Rightarrow> AudioBuffer \<Rightarrow> real \<Rightarrow> WaveformStyle \<Rightarrow> ColorPreset \<Rightarrow> bool \<Rightarrow> byte list option
    \<Rightarrow> (error + Context2D) option" where
  "renderCall p buffer currentTime style preset isTransparentBg freqData =
    map_option
      (\<lambda>context. drawWaveform (analyserNode (state p)) context buffer currentTime style preset
         isTransparentBg freqData)
      (canvasRef (state p))"

text \<open>
  An export is active from the click that starts it until its \<open>onstop\<close> has run: while a
  callback of its loop is requested, while its recorder records, or while the stop event
  of its recorder is still to be delivered.
\<close>

definition active :: "ExportJob \<Rightarrow> bool" where
  "active j = (scheduled j \<or> recorder j = recording \<or> stopEventPending j)"

text \<open>
  The runs of the page: \<open>reachable inStep p js\<close> holds when the events of the component can
  lead from the mounted page to the page \<open>p\<close> with the exports \<open>js\<close> started so far, in the
  order of their clicks. The events are: a render; a file chosen and decoded (or not);
  a style button, a preset button (the buttons list \<open>COLOR_PRESETS\<close>), the transparency
  checkbox; play, pause and end of the audio element; a preview frame drawn by \<open>animate\<close> or
  by the effect, both under the guard \<open>audioBuffer\<close>, with the session's \<open>frequencyData\<close>,
  refreshed by \<open>animate\<close> when analyser and array exist; a click on \<open>Create Video\<close>; an
  animation-frame callback of an export that requested one; the stop event of a recorder.
  A call of the renderer that throws leaves its callback, with whatever it had painted
  on the canvas; the canvas keeps its size and global alpha.

  Renders are events like the others, so between two events the page may or may not have
  rendered. With \<open>inStep\<close> the runs are restricted to those in which every click on
  \<open>Create Video\<close> finds a page whose rendered \<open>isExporting\<close> is the current one.
\<close>

inductive reachable :: "bool \<Rightarrow> Page \<Rightarrow> ExportJob list \<Rightarrow> bool" for inStep :: bool where
  mount: "reachable inStep initialPage []"
| rerender: "reachable inStep p js \<Longrightarrow> reachable inStep (render p) js"
| fileChange: "reachable inStep p js \<Longrightarrow>
    reachable inStep (p\<lparr>state := handleFileChange selectedFile decoded (state p)\<rparr>) js"
| selectStyle: "reachable inStep p js \<Longrightarrow>
    reachable inStep (p\<lparr>state := (state p)\<lparr>waveformStyle := style\<rparr>\<rparr>) js"
| selectPreset: "reachable inStep p js \<Longrightarrow> preset \<in> set COLOR_PRESETS \<Longrightarrow>
    reachable inStep (p\<lparr>state := (state p)\<lparr>colorPreset := preset\<rparr>\<rparr>) js"
| toggleTransparent: "reachable inStep p js \<Longrightarrow>
    reachable inStep (p\<lparr>state := (state p)\<lparr>isTransparent := \<not> isTransparent (view p)\<rparr>\<rparr>) js"
| playing: "reachable inStep p js \<Longrightarrow>
    reachable inStep (p\<lparr>state := (state p)\<lparr>isPlaying := b\<rparr>\<rparr>) js"
| preview: "reachable inStep p js \<Longrightarrow> audioBuffer (view p) = Some buffer \<Longrightarrow>
    canvasRef (state p) = Some context \<Longrightarrow>
    freqData = frequencyData (state p)
      \<or> (analyserNode (state p) \<noteq> None \<and> frequencyData (state p) = Some old
          \<and> length spectrum = length old \<and> freqData = Some spectrum) \<Longrightarrow>
    drawWaveform (analyserNode (state p)) context buffer currentTime (waveformStyle (view p))
      (colorPreset (view p)) (isTransparent (view p)) freqData = Inr context' \<Longrightarrow>
    reachable inStep
      (p\<lparr>state := (state p)\<lparr>canvasRef := Some context', frequencyData := freqData\<rparr>\<rparr>) js"
| previewThrows: "reachable inStep p js \<Longrightarrow> audioBuffer (view p) = Some buffer \<Longrightarrow>
    canvasRef (state p) = Some context \<Longrightarrow>
    freqData = frequencyData (state p)
      \<or> (analyserNode (state p) \<noteq> None \<and> frequencyData (state p) = Some old
          \<and> length spectrum = length old \<and> freqData = Some spectrum) \<Longrightarrow>
    drawWaveform (analyserNode (state p)) context buffer currentTime (waveformStyle (view p))
      (colorPreset (view p)) (isTransparent (view p)) freqData = Inl e \<Longrightarrow>
    width context' = width context \<Longrightarrow> height context' = height context \<Longrightarrow>
    globalAlpha context' = globalAlpha context \<Longrightarrow>
    reachable inStep
      (p\<lparr>state := (state p)\<lparr>canvasRef := Some context', frequencyData := freqData\<rparr>\<rparr>) js"
| click: "reachable inStep p js \<Longrightarrow>
    (inStep \<longrightarrow> isExporting (view p) = isExporting (state p)) \<Longrightarrow>
    clickCreateVideo p = (p', jo) \<Longrightarrow>
    reachable inStep p' (js @ (case jo of None \<Rightarrow> [] | Some j \<Rightarrow> [j]))"
| frame: "reachable inStep p js \<Longrightarrow> k < length js \<Longrightarrow> scheduled (js ! k) \<Longrightarrow>
    recordAnimation startTime now spectrum (state p, js ! k) = Inr (s', j') \<Longrightarrow>
    reachable inStep (p\<lparr>state := s'\<rparr>) (js[k := j'])"
| frameThrows: "reachable inStep p js \<Longrightarrow> k < length js \<Longrightarrow> scheduled (js ! k) \<Longrightarrow>
    recordAnimation startTime now spectrum (state p, js ! k) = Inl e \<Longrightarrow>
    canvasRef (state p) = Some context \<Longrightarrow>
    width context' = width context \<Longrightarrow> height context' = height context \<Longrightarrow>
    globalAlpha context' = globalAlpha context \<Longrightarrow>
    reachable inStep (p\<lparr>state := (state p)\<lparr>canvasRef := Some context'\<rparr>\<rparr>)
      (js[k := (js ! k)\<lparr>scheduled := False\<rparr>])"
| stopEvent: "reachable inStep p js \<Longrightarrow> k < length js \<Longrightarrow> stopEventPending (js ! k) \<Longrightarrow>
    reachable inStep (p\<lparr>state := onstop url (state p)\<rparr>)
      (js[k := (js ! k)\<lparr>stopEventPending := False\<rparr>])"

text \<open>
  What holds of every page of a run: the canvas is the 1280 by 720 canvas of the JSX with
  global alpha 1 (no code sets it); the analyser ref is either still null, and then no
  signal was decoded, no export was started and there is no snapshot array, or the
  analyser that \<open>handleFileChange\<close> created with \<open>fftSize = 2048\<close>.
\<close>

definition pageCanvas :: "Page \<Rightarrow> bool" where
  "pageCanvas p =
    (case canvasRef (state p) of
       None \<Rightarrow> False
     | Some c \<Rightarrow> width c = CANVAS_WIDTH \<and> height c = CANVAS_HEIGHT \<and> globalAlpha c = 1)"

definition sessionAnalyser :: "Page \<Rightarrow> ExportJob list \<Rightarrow> bool" where
  "sessionAnalyser p js =
    (case analyserNode (state p) of
       None \<Rightarrow> audioBuffer (state p) = None \<and> audioBuffer (view p) = None
                \<and> frequencyData (state p) = None \<and> js = []
     | Some a \<Rightarrow> a = \<lparr>fftSize = 2048\<rparr>)"

text \<open>
  One export at a time: no two active exports, \<open>isExporting\<close> set while one is active, and
  a recorder whose stop event is pending has stopped and requested no further callback.
\<close>

definition exclusive :: "Page \<Rightarrow> ExportJob list \<Rightarrow> bool" where
  "exclusive p js =
    ((\<forall>i < length js. \<forall>k < length js. active (js ! i) \<longrightarrow> active (js ! k) \<longrightarrow> i = k)
     \<and> ((\<exists>i < length js. active (js ! i)) \<longrightarrow> isExporting (state p))
     \<and> (\<forall>i < length js. stopEventPending (js ! i) \<longrightarrow>
           \<not> scheduled (js ! i) \<and> recorder (js ! i) = inactive))"

text \<open>
  Example pages: the page that shows the loaded example signal; the first click on
  \<open>Create Video\<close> there; a second click on the page the first one leaves, not yet rendered
  again; and the page after the first click once it has rendered.
\<close>

definition loadedPage :: Page where
  "loadedPage = \<lparr>view = loadedApp, state = loadedApp\<rparr>"

definition firstClick :: "Page \<times> ExportJob option" where
  "firstClick = clickCreateVideo loadedPage"

definition secondClick :: "Page \<times> ExportJob option" where
  "secondClick = clickCreateVideo (fst firstClick)"

definition exportingPage :: Page where
  "exportingPage = render (fst firstClick)"

section \<open>Properties of the canvas operations and of the colour resolver\<close>

lemmas canvas_defs = clearRect_def fillRect_def set_fillStyle_def set_strokeStyle_def beginPath_def
  arc_def moveTo_def lineTo_def fill_def stroke_def

lemma addColorStops_fold:
  "fold (\<lambda>(index, color). addColorStop (real index / d) color) (enumerate n cs) g =
     g\<lparr>stops := stops g @ map (\<lambda>(index, color). (real index / d, color)) (enumerate n cs)\<rparr>"
  by (induction cs arbitrary: n g) (simp_all add: addColorStop_def)

lemma stops_addColorStops:
  "stops (addColorStops cs g) =
     stops g @ map (\<lambda>(index, color). (real index / (real (length cs) - 1), color)) (enumerate 0 cs)"
  by (simp add: addColorStops_def addColorStops_fold)

lemma axis_addColorStops: "axis (addColorStops cs g) = axis g"
  by (simp add: addColorStops_def addColorStops_fold)

lemma getActiveStyle_nonempty: "colors p \<noteq> [] \<Longrightarrow> \<exists>s. getActiveStyle p y1 y2 = Some s"
  by (cases "colors p") (simp_all add: getActiveStyle_def firstColor_def nth_opt_def)

lemma background_frame:
  "width (background t c) = width c" "height (background t c) = height c"
  "globalAlpha (background t c) = globalAlpha c"
  "painted (background t c) =
     (if t then []
      else [FillRect (Color ''#111827'') (globalAlpha c) 0 0 (real (width c)) (real (height c))])"
  by (simp_all add: background_def canvas_defs Let_def)

section \<open>The bar styles\<close>

lemma drawBar_frame:
  assumes "getActiveStyle p (real (height c) / 2) (real (height c)) = Some s"
  shows "width (drawBar style p fd bw bg i c) = width c"
    and "height (drawBar style p fd bw bg i c) = height c"
    and "globalAlpha (drawBar style p fd bw bg i c) = globalAlpha c"
    and "painted (drawBar style p fd bw bg i c) = painted c @
      (case barHeightAt fd (real (height c)) i of
         None \<Rightarrow> []
       | Some barHeight \<Rightarrow>
           [FillRect s (globalAlpha c) (real i * (bw + bg))
              (if style = BottomBars then real (height c) - barHeight
               else (real (height c) - barHeight) / 2) bw barHeight])"
  using assms by (simp_all add: drawBar_def canvas_defs Let_def split: option.splits)

lemma fold_drawBar_frame:
  assumes "getActiveStyle p (real (height c) / 2) (real (height c)) = Some s"
  shows "width (fold (drawBar style p fd bw bg) [0..<n] c) = width c
    \<and> height (fold (drawBar style p fd bw bg) [0..<n] c) = height c
    \<and> globalAlpha (fold (drawBar style p fd bw bg) [0..<n] c) = globalAlpha c
    \<and> painted (fold (drawBar style p fd bw bg) [0..<n] c) = painted c @
      concat (map (\<lambda>i. case barHeightAt fd (real (height c)) i of
         None \<Rightarrow> []
       | Some barHeight \<Rightarrow>
           [FillRect s (globalAlpha c) (real i * (bw + bg))
              (if style = BottomBars then real (height c) - barHeight
               else (real (height c) - barHeight) / 2) bw barHeight]) [0..<n])"
proof (induction n)
  case 0
  show ?case by simp
next
  case (Suc n)
  let ?c' = "fold (drawBar style p fd bw bg) [0..<n] c"
  from Suc have w: "width ?c' = width c" and h: "height ?c' = height c"
    and a: "globalAlpha ?c' = globalAlpha c" by simp_all
  have s': "getActiveStyle p (real (height ?c') / 2) (real (height ?c')) = Some s"
    using assms h by simp
  note step = drawBar_frame[OF s', of style fd bw bg n, unfolded h a w]
  show ?case
    using Suc by (simp add: step)
qed

lemma concat_bars_within:
  assumes "n \<le> length fd"
  shows "concat (map (\<lambda>i. case barHeightAt fd h i of None \<Rightarrow> [] | Some b \<Rightarrow> [F i b]) [0..<n]) =
         map (\<lambda>i. F i ((real (unat (fd ! i)) / 255)\<^sup>2 * h)) [0..<n]"
proof -
  have eq: "map (\<lambda>i. case barHeightAt fd h i of None \<Rightarrow> [] | Some b \<Rightarrow> [F i b]) [0..<n] =
        map (\<lambda>i. [F i ((real (unat (fd ! i)) / 255)\<^sup>2 * h)]) [0..<n]"
    using assms by (intro map_cong) (auto simp: barHeightAt_def nth_opt_def)
  show ?thesis unfolding eq by (rule concat_map_singleton)
qed

lemma concat_bars_beyond:
  assumes "length fd \<le> m"
  shows "concat (map (\<lambda>i. case barHeightAt fd h i of None \<Rightarrow> [] | Some b \<Rightarrow> [F i b]) [m..<n]) = []"
  using assms by (auto simp: barHeightAt_def nth_opt_def)

lemma concat_bars:
  "concat (map (\<lambda>i. case barHeightAt fd h i of None \<Rightarrow> [] | Some b \<Rightarrow> [F i b]) [0..<n]) =
   map (\<lambda>i. F i ((real (unat (fd ! i)) / 255)\<^sup>2 * h)) [0..<min n (length fd)]"
proof (cases "n \<le> length fd")
  case True
  then show ?thesis by (simp add: concat_bars_within min_absorb1)
next
  case False
  then have split: "[0..<n] = [0..<length fd] @ [length fd..<n]"
    by (metis le_add_diff_inverse nat_le_linear upt_add_eq_append zero_le)
  show ?thesis
    using False
    by (simp only: split map_append concat_append concat_bars_within[OF order_refl]
          concat_bars_beyond[OF order_refl]) (simp add: min_def)
qed

lemma drawBars_frame:
  assumes bc: "barCountOf an style = Inr barCount"
    and s: "getActiveStyle p (real (height c) / 2) (real (height c)) = Some s"
  shows "\<exists>c'. drawBars an style p fd c = Inr c' \<and> width c' = width c \<and> height c' = height c
    \<and> globalAlpha c' = globalAlpha c
    \<and> painted c' = painted c @
      concat (map (\<lambda>i. case barHeightAt fd (real (height c)) i of
         None \<Rightarrow> []
       | Some barHeight \<Rightarrow>
           [FillRect s (globalAlpha c)
              (real i * ((real (width c) - (barCount - 1) * (if style = Equalizer then 1 else 4)) / barCount
                         + (if style = Equalizer then 1 else 4)))
              (if style = BottomBars then real (height c) - barHeight
               else (real (height c) - barHeight) / 2)
              ((real (width c) - (barCount - 1) * (if style = Equalizer then 1 else 4)) / barCount)
              barHeight]) [0..<nat \<lceil>barCount\<rceil>])"
  using fold_drawBar_frame[OF s, of style fd _ _ "nat \<lceil>barCount\<rceil>"] bc
  by (simp add: drawBars_def Let_def)

lemma drawWaveform_bars:
  assumes st: "style = Equalizer \<or> style = SymmetricBars \<or> style = BottomBars"
  shows "drawWaveform an ctx buf t style p tr (Some fd) = drawBars an style p fd (background tr ctx)"
  using st by (auto simp: drawWaveform_def Let_def)

text \<open>
  The frame of the three bar styles in closed form: bar \<open>i\<close> is drawn from bin \<open>i\<close>, for
  every \<open>i\<close> below the bar count for which the snapshot has a bin.
\<close>

lemma drawWaveform_bars_frame:
  fixes ctx :: Context2D and fd :: "byte list" and style :: WaveformStyle
  defines "h \<equiv> real (height ctx)"
    and "gap \<equiv> (if style = Equalizer then 1 else 4 :: real)"
  assumes st: "style = Equalizer \<or> style = SymmetricBars \<or> style = BottomBars"
    and bc: "barCountOf an style = Inr barCount"
    and s: "getActiveStyle p (h / 2) h = Some s"
  shows "\<exists>c'. drawWaveform an ctx buf t style p tr (Some fd) = Inr c'
      \<and> width c' = width ctx \<and> height c' = height ctx \<and> globalAlpha c' = globalAlpha ctx
      \<and> painted c' = painted (background tr ctx) @
          map (\<lambda>i. FillRect s (globalAlpha ctx)
                  (real i * ((real (width ctx) - (barCount - 1) * gap) / barCount + gap))
                  (if style = BottomBars then h - (real (unat (fd ! i)) / 255)\<^sup>2 * h
                   else (h - (real (unat (fd ! i)) / 255)\<^sup>2 * h) / 2)
                  ((real (width ctx) - (barCount - 1) * gap) / barCount)
                  ((real (unat (fd ! i)) / 255)\<^sup>2 * h))
            [0..<min (nat \<lceil>barCount\<rceil>) (length fd)]"
proof -
  let ?b = "background tr ctx"
  have s': "getActiveStyle p (real (height ?b) / 2) (real (height ?b)) = Some s"
    using s by (simp add: background_frame h_def)
  have dw: "drawWaveform an ctx buf t style p tr (Some fd) = drawBars an style p fd ?b"
    using st by (rule drawWaveform_bars)
  from drawBars_frame[OF bc s', of fd] obtain c' where
    c': "drawBars an style p fd ?b = Inr c'"
    and fr: "width c' = width ?b" "height c' = height ?b" "globalAlpha c' = globalAlpha ?b"
    and pt: "painted c' = painted ?b @
      concat (map (\<lambda>i. case barHeightAt fd (real (height ?b)) i of
         None \<Rightarrow> []
       | Some barHeight \<Rightarrow>
           [FillRect s (globalAlpha ?b)
              (real i * ((real (width ?b) - (barCount - 1) * (if style = Equalizer then 1 else 4)) / barCount
                         + (if style = Equalizer then 1 else 4)))
              (if style = BottomBars then real (height ?b) - barHeight
               else (real (height ?b) - barHeight) / 2)
              ((real (width ?b) - (barCount - 1) * (if style = Equalizer then 1 else 4)) / barCount)
              barHeight]) [0..<nat \<lceil>barCount\<rceil>])"
    by blast
  have "painted c' = painted ?b @
          map (\<lambda>i. FillRect s (globalAlpha ctx)
                  (real i * ((real (width ctx) - (barCount - 1) * gap) / barCount + gap))
                  (if style = BottomBars then h - (real (unat (fd ! i)) / 255)\<^sup>2 * h
                   else (h - (real (unat (fd ! i)) / 255)\<^sup>2 * h) / 2)
                  ((real (width ctx) - (barCount - 1) * gap) / barCount)
                  ((real (unat (fd ! i)) / 255)\<^sup>2 * h))
            [0..<min (nat \<lceil>barCount\<rceil>) (length fd)]"
    unfolding pt concat_bars
    by (simp add: background_frame(1-3) h_def gap_def)
  with c' dw fr show ?thesis by (simp add: background_frame(1-3))
qed

lemma emerald_style: "getActiveStyle (COLOR_PRESETS ! 3) y1 y2 = Some (Color ''#34d399'')"
  by (simp add: COLOR_PRESETS_def getActiveStyle_def firstColor_def nth_opt_def)

text \<open>
  C4, as amended. For the SymmetricBars and BottomBars styles the bars are drawn from the
  leading bins of the frequency snapshot, bar \<open>i\<close> from bin \<open>i\<close>, with no resampling: for a
  preset with at least one colour the frame is the background followed by one rectangle
  for each \<open>i\<close> below 128 for which the snapshot has a bin, of width \<open>(width - 127 * 4) /
  128\<close>, at \<open>x = i * (barWidth + 4)\<close>, whose height is the shaped amplitude \<open>(bin i / 255)\<^sup>2 *
  height\<close> of bin \<open>i\<close>; it is centred vertically for SymmetricBars and stands on the bottom
  edge for BottomBars.
\<close>

theorem bars_drawn_from_leading_bins:
  fixes ctx :: Context2D and fd :: "byte list"
  defines "h \<equiv> real (height ctx)"
    and "barWidth \<equiv> (real (width ctx) - (128 - 1) * 4) / 128"
  assumes st: "style = SymmetricBars \<or> style = BottomBars" and ne: "colors p \<noteq> []"
  shows "\<exists>c' s. drawWaveform an ctx buf t style p tr (Some fd) = Inr c'
      \<and> getActiveStyle p (h / 2) h = Some s
      \<and> painted c' = painted (background tr ctx) @
          map (\<lambda>i. FillRect s (globalAlpha ctx) (real i * (barWidth + 4))
                  (if style = BottomBars then h - (real (unat (fd ! i)) / 255)\<^sup>2 * h
                   else (h - (real (unat (fd ! i)) / 255)\<^sup>2 * h) / 2)
                  barWidth ((real (unat (fd ! i)) / 255)\<^sup>2 * h))
            [0..<min 128 (length fd)]"
proof -
  obtain s where s: "getActiveStyle p (h / 2) h = Some s"
    using getActiveStyle_nonempty[OF ne] by blast
  have bc: "barCountOf an style = Inr 128"
    using st by (auto simp: barCountOf_def)
  have st': "style = Equalizer \<or> style = SymmetricBars \<or> style = BottomBars"
    using st by blast
  have neq: "style \<noteq> Equalizer" using st by auto
  from drawWaveform_bars_frame[where ctx=ctx and buf=buf and t=t and tr=tr and fd=fd,
      OF st' bc s[unfolded h_def]] s neq
  show ?thesis by (auto simp: h_def barWidth_def)
qed

text \<open>
  The theorem at the BottomBars style, the Emerald preset and the spike snapshot on the
  application's canvas: the frame is the background and 128 bars.
\<close>

theorem bars_drawn_from_leading_bins_witness:
  "(BottomBars = SymmetricBars \<or> BottomBars = BottomBars) \<and> colors (COLOR_PRESETS ! 3) \<noteq> []
   \<and> (\<exists>c'. drawWaveform None initialContext exampleBuffer 0 BottomBars (COLOR_PRESETS ! 3) False
              (Some spikeSnapshot) = Inr c'
         \<and> length (painted c') = 129)"
proof -
  have st: "BottomBars = SymmetricBars \<or> BottomBars = BottomBars" by simp
  have ne: "colors (COLOR_PRESETS ! 3) \<noteq> []" by (simp add: COLOR_PRESETS_def)
  from bars_drawn_from_leading_bins[OF st ne, where an=None and ctx=initialContext
      and buf=exampleBuffer and t=0 and tr=False and fd=spikeSnapshot]
  have "\<exists>c'. drawWaveform None initialContext exampleBuffer 0 BottomBars (COLOR_PRESETS ! 3) False
              (Some spikeSnapshot) = Inr c' \<and> length (painted c') = 129"
    by (auto simp: background_frame spikeSnapshot_def)
  with st ne show ?thesis by blast
qed

text \<open>
  C4 as stated fails. On the application's canvas (1280 by 720), with an opaque background,
  the SymmetricBars frame of the spike snapshot has as its third operation (after the
  background and bar 0) the rectangle of bar 1, of full height 720: the height of bin 1.
  The resampling of the claim would take bar 1 from bin \<open>floor(1 / 128 * 1024) = 8\<close>, which
  is silent, and give it height 0.
\<close>

theorem bars_not_resampled_counterexample:
  "(case drawWaveform (Some \<lparr>fftSize = 2048\<rparr>) initialContext exampleBuffer 0 SymmetricBars
          (COLOR_PRESETS ! 3) False (Some spikeSnapshot) of
      Inl e \<Rightarrow> False
    | Inr c' \<Rightarrow> painted c' ! 2 =
        FillRect (Color ''#34d399'') 1 (1 * ((1280 - (128 - 1) * 4) / 128 + 4)) 0
          ((1280 - (128 - 1) * 4) / 128) 720)
   \<and> resampleIndex (length spikeSnapshot) 128 1 = 8
   \<and> resampledBarHeight spikeSnapshot 720 1 = 0"
proof -
  have st: "SymmetricBars = Equalizer \<or> SymmetricBars = SymmetricBars \<or> SymmetricBars = BottomBars"
    by simp
  have bc: "barCountOf (Some \<lparr>fftSize = 2048\<rparr>) SymmetricBars = Inr 128"
    by (simp add: barCountOf_def)
  from drawWaveform_bars_frame[where ctx=initialContext and buf=exampleBuffer and t=0
      and tr=False and fd=spikeSnapshot, OF st bc emerald_style]
  obtain c' where c': "drawWaveform (Some \<lparr>fftSize = 2048\<rparr>) initialContext exampleBuffer 0
          SymmetricBars (COLOR_PRESETS ! 3) False (Some spikeSnapshot) = Inr c'"
    and pt: "painted c' ! 2 =
        FillRect (Color ''#34d399'') 1 (1 * ((1280 - (128 - 1) * 4) / 128 + 4)) 0
          ((1280 - (128 - 1) * 4) / 128) 720"
    by (auto simp: background_frame initialContext_def CANVAS_WIDTH_def CANVAS_HEIGHT_def
          spikeSnapshot_def nth_append)
  have r: "resampleIndex (length spikeSnapshot) 128 1 = 8"
    by (simp add: resampleIndex_def spikeSnapshot_def)
  have "resampledBarHeight spikeSnapshot 720 1 = 0"
    unfolding resampledBarHeight_def r by (simp add: spikeSnapshot_def)
  with c' pt r show ?thesis by simp
qed

section \<open>The Equalizer style and the session analyser\<close>

lemma drawBars_returns: "(\<exists>c'. drawBars an style p fd c = Inr c') \<longleftrightarrow> \<not> isl (barCountOf an style)"
  by (cases "barCountOf an style") (simp_all add: drawBars_def Let_def)

lemma barCountOf_Equalizer:
  "barCountOf None Equalizer = Inl TypeError"
  "barCountOf (Some a) Equalizer = Inr (real (frequencyBinCount a) / 4)"
  by (simp_all add: barCountOf_def)

lemma equalizer_st: "Equalizer = Equalizer \<or> Equalizer = SymmetricBars \<or> Equalizer = BottomBars"
  by simp

lemma handleFileChange_analyser:
  "analyserNode (handleFileChange (Some f) (Some b) s) =
     (case analyserNode s of None \<Rightarrow> Some \<lparr>fftSize = 2048\<rparr> | Some a \<Rightarrow> Some a)"
  "analyserNode (handleFileChange sel None s) = analyserNode s"
  "analyserNode (handleFileChange None d s) = analyserNode s"
  by (simp_all add: handleFileChange_def Let_def split: option.splits)

text \<open>
  C10. Rendering the Equalizer style with a snapshot reads the session's analyser ref for
  the bar count. With no analyser the render throws a \<open>TypeError\<close>, so a render with a
  snapshot returns exactly when the analyser exists; with no snapshot the ref is not read.
  The bar count is \<open>frequencyBinCount / 4\<close> of that analyser, 256 for \<open>fftSize = 2048\<close>,
  and the number of bars drawn is that count (capped only by the bins the snapshot has), not
  the snapshot's length. The analyser does not exist in the initial state, is left as it
  is by a failed load, and exists after every successful load, created with \<open>fftSize =
  2048\<close> when it was missing. An export callback passes the same session analyser to the
  renderer, with the export analyser's spectrum, and fails in the same way without it.
\<close>

theorem equalizer_bar_count_from_session_analyser:
  "drawWaveform None ctx buf t Equalizer p tr (Some fd) = Inl TypeError
   \<and> ((\<exists>c'. drawWaveform an ctx buf t Equalizer p tr (Some fd) = Inr c') \<longleftrightarrow> an \<noteq> None)
   \<and> (\<exists>c'. drawWaveform an ctx buf t Equalizer p tr None = Inr c')
   \<and> barCountOf (Some a) Equalizer = Inr (real (frequencyBinCount a) / 4)
   \<and> real (frequencyBinCount \<lparr>fftSize = 2048\<rparr>) / 4 = 256
   \<and> (colors p \<noteq> [] \<longrightarrow>
        (\<exists>c'. drawWaveform (Some a) ctx buf t Equalizer p tr (Some fd) = Inr c'
          \<and> length (painted c') = length (painted (background tr ctx))
               + min (nat \<lceil>real (frequencyBinCount a) / 4\<rceil>) (length fd)))
   \<and> analyserNode initialApp = None
   \<and> analyserNode (handleFileChange selectedFile None s) = analyserNode s
   \<and> analyserNode (handleFileChange (Some f) (Some decodedBuffer) s) \<noteq> None
   \<and> (analyserNode s = None \<longrightarrow>
        analyserNode (handleFileChange (Some f) (Some decodedBuffer) s) = Some \<lparr>fftSize = 2048\<rparr>)
   \<and> (analyserNode s = None \<and> canvasRef s \<noteq> None \<and> jobStyle j = Equalizer
        \<and> elapsedTimeOf startTime now < duration (jobBuffer j) \<longrightarrow>
        recordAnimation startTime now spectrum (s, j) = Inl TypeError)"
proof -
  have dw: "\<And>an. drawWaveform an ctx buf t Equalizer p tr (Some fd) =
      drawBars an Equalizer p fd (background tr ctx)"
    by (rule drawWaveform_bars[OF equalizer_st])
  have 1: "drawWaveform None ctx buf t Equalizer p tr (Some fd) = Inl TypeError"
    by (simp add: dw drawBars_def barCountOf_Equalizer)
  have 2: "(\<exists>c'. drawWaveform an ctx buf t Equalizer p tr (Some fd) = Inr c') \<longleftrightarrow> an \<noteq> None"
    unfolding dw drawBars_returns by (cases an) (simp_all add: barCountOf_Equalizer)
  have 3: "\<exists>c'. drawWaveform an ctx buf t Equalizer p tr None = Inr c'"
    by (simp add: drawWaveform_def Let_def)
  have 5: "real (frequencyBinCount \<lparr>fftSize = 2048\<rparr>) / 4 = 256"
    by (simp add: frequencyBinCount_def)
  have 6: "\<exists>c'. drawWaveform (Some a) ctx buf t Equalizer p tr (Some fd) = Inr c'
          \<and> length (painted c') = length (painted (background tr ctx))
               + min (nat \<lceil>real (frequencyBinCount a) / 4\<rceil>) (length fd)"
    if ne: "colors p \<noteq> []"
  proof -
    obtain s where s: "getActiveStyle p (real (height ctx) / 2) (real (height ctx)) = Some s"
      using getActiveStyle_nonempty[OF ne] by blast
    from drawWaveform_bars_frame[where ctx=ctx and buf=buf and t=t and tr=tr and fd=fd
        and an="Some a", OF equalizer_st barCountOf_Equalizer(2) s]
    obtain c' ops where c': "drawWaveform (Some a) ctx buf t Equalizer p tr (Some fd) = Inr c'"
      and pt: "painted c' = painted (background tr ctx) @ map ops
          [0..<min (nat \<lceil>real (frequencyBinCount a) / 4\<rceil>) (length fd)]"
      by blast
    have "length (painted c') = length (painted (background tr ctx))
               + min (nat \<lceil>real (frequencyBinCount a) / 4\<rceil>) (length fd)"
      unfolding pt by simp
    with c' show ?thesis by blast
  qed
  have 7: "analyserNode initialApp = None" by (simp add: initialApp_def)
  have 9: "analyserNode (handleFileChange (Some f) (Some decodedBuffer) s) \<noteq> None"
    by (simp add: handleFileChange_analyser split: option.splits)
  have 10: "analyserNode (handleFileChange (Some f) (Some decodedBuffer) s) = Some \<lparr>fftSize = 2048\<rparr>"
    if "analyserNode s = None"
    using that by (simp add: handleFileChange_analyser)
  have 11: "recordAnimation startTime now spectrum (s, j) = Inl TypeError"
    if "analyserNode s = None" "canvasRef s \<noteq> None" "jobStyle j = Equalizer"
      "elapsedTimeOf startTime now < duration (jobBuffer j)"
  proof -
    from that(2) obtain c where c: "canvasRef s = Some c" by blast
    have "drawWaveform None c (jobBuffer j) (elapsedTimeOf startTime now) Equalizer (jobPreset j)
        (jobTransparent j) (Some spectrum) = Inl TypeError"
      by (simp add: drawWaveform_bars[OF equalizer_st] drawBars_def barCountOf_Equalizer)
    with that c show ?thesis by (simp add: recordAnimation_def Let_def)
  qed
  from 1 2 3 5 6 7 9 10 11 show ?thesis
    by (simp add: barCountOf_Equalizer handleFileChange_analyser)
qed

text \<open>
  The theorem at the initial state and the state after loading a file, on the application's
  canvas with the Synthwave preset and a snapshot of 1024 bins: before the load the render
  throws, after it the frame is the background and 256 bars.
\<close>

theorem equalizer_bar_count_from_session_analyser_witness:
  "colors (COLOR_PRESETS ! 0) \<noteq> [] \<and> analyserNode initialApp = None
   \<and> (\<exists>c'. drawWaveform (analyserNode (handleFileChange (Some ''song.mp3'') (Some exampleBuffer) initialApp))
              initialContext exampleBuffer 0 Equalizer (COLOR_PRESETS ! 0) False (Some loudSnapshot) = Inr c'
         \<and> length (painted c') = 257)
   \<and> drawWaveform (analyserNode initialApp) initialContext exampleBuffer 0 Equalizer
        (COLOR_PRESETS ! 0) False (Some loudSnapshot) = Inl TypeError"
proof -
  have ne: "colors (COLOR_PRESETS ! 0) \<noteq> []" by (simp add: COLOR_PRESETS_def)
  have i: "analyserNode initialApp = None" by (simp add: initialApp_def)
  note t = equalizer_bar_count_from_session_analyser[where ctx=initialContext and buf=exampleBuffer
      and t=0 and p="COLOR_PRESETS ! 0" and tr=False and fd=loudSnapshot and s=initialApp
      and a="\<lparr>fftSize = 2048\<rparr>" and f="''song.mp3''" and decodedBuffer=exampleBuffer]
  from t i have l: "analyserNode (handleFileChange (Some ''song.mp3'') (Some exampleBuffer) initialApp)
      = Some \<lparr>fftSize = 2048\<rparr>" by blast
  from t ne have "\<exists>c'. drawWaveform (Some \<lparr>fftSize = 2048\<rparr>) initialContext exampleBuffer 0 Equalizer
       (COLOR_PRESETS ! 0) False (Some loudSnapshot) = Inr c'
     \<and> length (painted c') = length (painted (background False initialContext))
               + min (nat \<lceil>real (frequencyBinCount \<lparr>fftSize = 2048\<rparr>) / 4\<rceil>) (length loudSnapshot)"
    by blast
  then have "\<exists>c'. drawWaveform (Some \<lparr>fftSize = 2048\<rparr>) initialContext exampleBuffer 0 Equalizer
       (COLOR_PRESETS ! 0) False (Some loudSnapshot) = Inr c' \<and> length (painted c') = 257"
    by (simp add: background_frame frequencyBinCount_def loudSnapshot_def)
  moreover from t have "drawWaveform None initialContext exampleBuffer 0 Equalizer
        (COLOR_PRESETS ! 0) False (Some loudSnapshot) = Inl TypeError" by blast
  ultimately show ?thesis using ne i l by simp
qed

section \<open>The colour resolver\<close>

lemma gradient_stops_nth:
  assumes "k < length cs"
  shows "stops (addColorStops cs g) ! (length (stops g) + k) = (real k / (real (length cs) - 1), cs ! k)"
  using assms by (simp add: stops_addColorStops nth_append nth_enumerate_eq)

text \<open>
  C6. For a preset with exactly one stop the resolver \<open>getActiveStyle\<close> returns that colour
  as a solid style. For a preset with two or more stops it returns a linear gradient along
  the vertical axis from \<open>y1\<close> to \<open>y2\<close> with one stop per colour, stop \<open>k\<close> being colour
  \<open>k\<close> placed at offset \<open>k / (len - 1)\<close>; the offsets lie in \<open>[0, 1]\<close> and increase
  strictly, so the stops appear in the preset's order.
\<close>

theorem getActiveStyle_solid_or_ordered_gradient:
  "(length (colors p) = 1 \<longrightarrow> getActiveStyle p y1 y2 = Some (Color (colors p ! 0)))
   \<and> (2 \<le> length (colors p) \<longrightarrow>
        (\<exists>g. getActiveStyle p y1 y2 = Some (Gradient g)
           \<and> axis g = Linear 0 y1 0 y2
           \<and> length (stops g) = length (colors p)
           \<and> (\<forall>k < length (colors p).
                 stops g ! k = (real k / (real (length (colors p)) - 1), colors p ! k)
                 \<and> 0 \<le> fst (stops g ! k) \<and> fst (stops g ! k) \<le> 1)
           \<and> sorted_wrt (<) (map fst (stops g))))"
proof (intro conjI impI)
  assume "length (colors p) = 1"
  then show "getActiveStyle p y1 y2 = Some (Color (colors p ! 0))"
    by (simp add: getActiveStyle_def firstColor_def nth_opt_def)
next
  assume len: "2 \<le> length (colors p)"
  let ?n = "length (colors p)"
  let ?g = "addColorStops (colors p) (createLinearGradient 0 y1 0 y2)"
  have d: "0 < real ?n - 1" using len by simp
  have g: "getActiveStyle p y1 y2 = Some (Gradient ?g)"
    using len by (simp add: getActiveStyle_def)
  have ax: "axis ?g = Linear 0 y1 0 y2"
    by (simp add: axis_addColorStops createLinearGradient_def)
  have ln: "length (stops ?g) = ?n"
    by (simp add: stops_addColorStops createLinearGradient_def)
  have nth: "stops ?g ! k = (real k / (real ?n - 1), colors p ! k)" if "k < ?n" for k
    using gradient_stops_nth[OF that, of "createLinearGradient 0 y1 0 y2"]
    by (simp add: createLinearGradient_def)
  have rng: "0 \<le> fst (stops ?g ! k) \<and> fst (stops ?g ! k) \<le> 1" if "k < ?n" for k
  proof -
    have "real k \<le> real ?n - 1" using that by linarith
    with d show ?thesis by (simp add: nth[OF that])
  qed
  have srt: "sorted_wrt (<) (map fst (stops ?g))"
    unfolding sorted_wrt_iff_nth_less
  proof (intro allI impI)
    fix i j assume ij: "i < j" and j: "j < length (map fst (stops ?g))"
    then have jn: "j < ?n" and "i < ?n" using ln by simp_all
    then show "map fst (stops ?g) ! i < map fst (stops ?g) ! j"
      using ij d by (simp add: ln nth divide_strict_right_mono)
  qed
  from g ax ln nth rng srt
  show "\<exists>g. getActiveStyle p y1 y2 = Some (Gradient g)
           \<and> axis g = Linear 0 y1 0 y2
           \<and> length (stops g) = length (colors p)
           \<and> (\<forall>k < length (colors p).
                 stops g ! k = (real k / (real (length (colors p)) - 1), colors p ! k)
                 \<and> 0 \<le> fst (stops g ! k) \<and> fst (stops g ! k) \<le> 1)
           \<and> sorted_wrt (<) (map fst (stops g))"
    by blast
qed

text \<open>
  The theorem at the Emerald preset (one stop) and the Synthwave preset (two stops): a solid
  colour, and a gradient with the stops at offsets 0 and 1.
\<close>

theorem getActiveStyle_solid_or_ordered_gradient_witness:
  "length (colors (COLOR_PRESETS ! 3)) = 1
   \<and> getActiveStyle (COLOR_PRESETS ! 3) 0 720 = Some (Color ''#34d399'')
   \<and> 2 \<le> length (colors (COLOR_PRESETS ! 0))
   \<and> (\<exists>g. getActiveStyle (COLOR_PRESETS ! 0) 0 720 = Some (Gradient g)
         \<and> stops g = [(0, ''#ec4899''), (1, ''#6d28d9'')])"
proof -
  have l1: "length (colors (COLOR_PRESETS ! 3)) = 1" by (simp add: COLOR_PRESETS_def)
  have l2: "2 \<le> length (colors (COLOR_PRESETS ! 0))" by (simp add: COLOR_PRESETS_def)
  from getActiveStyle_solid_or_ordered_gradient[of "COLOR_PRESETS ! 3" 0 720] l1
  have a: "getActiveStyle (COLOR_PRESETS ! 3) 0 720 = Some (Color ''#34d399'')"
    by (simp add: COLOR_PRESETS_def)
  from getActiveStyle_solid_or_ordered_gradient[of "COLOR_PRESETS ! 0" 0 720] l2
  obtain g where g: "getActiveStyle (COLOR_PRESETS ! 0) 0 720 = Some (Gradient g)"
    and ln: "length (stops g) = length (colors (COLOR_PRESETS ! 0))"
    and nth: "\<forall>k < length (colors (COLOR_PRESETS ! 0)).
        stops g ! k = (real k / (real (length (colors (COLOR_PRESETS ! 0))) - 1), colors (COLOR_PRESETS ! 0) ! k)
        \<and> 0 \<le> fst (stops g ! k) \<and> fst (stops g ! k) \<le> 1"
    by blast
  have "stops g = [(0, ''#ec4899''), (1, ''#6d28d9'')]"
  proof (rule nth_equalityI)
    show "length (stops g) = length [(0::real, ''#ec4899''), (1, ''#6d28d9'')]"
      using ln by (simp add: COLOR_PRESETS_def)
    fix i assume "i < length (stops g)"
    then have "i = 0 \<or> i = 1" using ln by (auto simp: COLOR_PRESETS_def)
    then show "stops g ! i = [(0::real, ''#ec4899''), (1, ''#6d28d9'')] ! i"
      using nth by (auto simp: COLOR_PRESETS_def)
  qed
  with l1 l2 a g show ?thesis by blast
qed

section \<open>The line styles\<close>

lemma linePoint_frame:
  "width (linePoint data ss r i c) = width c" "height (linePoint data ss r i c) = height c"
  "strokeStyle (linePoint data ss r i c) = strokeStyle c"
  "lineWidth (linePoint data ss r i c) = lineWidth c"
  "globalAlpha (linePoint data ss r i c) = globalAlpha c"
  "painted (linePoint data ss r i c) = painted c"
  "path (linePoint data ss r i c) = path c @
     [if i = 0 then MoveTo (real i) (lineY data ss r (real (height c)) i)
      else LineTo (real i) (lineY data ss r (real (height c)) i)]"
  by (simp_all add: linePoint_def canvas_defs Let_def)

lemma fold_linePoint_frame:
  "width (fold (linePoint data ss r) [0..<n] c) = width c
   \<and> height (fold (linePoint data ss r) [0..<n] c) = height c
   \<and> strokeStyle (fold (linePoint data ss r) [0..<n] c) = strokeStyle c
   \<and> lineWidth (fold (linePoint data ss r) [0..<n] c) = lineWidth c
   \<and> globalAlpha (fold (linePoint data ss r) [0..<n] c) = globalAlpha c
   \<and> painted (fold (linePoint data ss r) [0..<n] c) = painted c
   \<and> path (fold (linePoint data ss r) [0..<n] c) = path c @
       map (\<lambda>i. if i = 0 then MoveTo (real i) (lineY data ss r (real (height c)) i)
                else LineTo (real i) (lineY data ss r (real (height c)) i)) [0..<n]"
proof (induction n)
  case 0
  show ?case by simp
next
  case (Suc n)
  let ?c' = "fold (linePoint data ss r) [0..<n] c"
  from Suc have h: "height ?c' = height c" by simp
  note step = linePoint_frame[of data ss r n ?c', unfolded h]
  show ?case using Suc by (simp add: step)
qed

lemma drawLine_frame:
  "width (drawLine data csi r c) = width c" "height (drawLine data csi r c) = height c"
  "strokeStyle (drawLine data csi r c) = strokeStyle c"
  "lineWidth (drawLine data csi r c) = lineWidth c"
  "globalAlpha (drawLine data csi r c) = globalAlpha c"
  "painted (drawLine data csi r c) = painted c @
     [Stroke (strokeStyle c) (lineWidth c) (globalAlpha c)
        (map (\<lambda>i. if i = 0
                then MoveTo (real i) (lineY data (startSampleOf (width c) csi) r (real (height c)) i)
                else LineTo (real i) (lineY data (startSampleOf (width c) csi) r (real (height c)) i))
           [0..<width c])]"
  using fold_linePoint_frame[of data "startSampleOf (width c) csi" r "width c" "beginPath c"]
  by (simp_all add: drawLine_def Let_def stroke_def beginPath_def)

lemma set_strokeStyle_frame:
  "width (set_strokeStyle v c) = width c" "height (set_strokeStyle v c) = height c"
  "globalAlpha (set_strokeStyle v c) = globalAlpha c" "lineWidth (set_strokeStyle v c) = lineWidth c"
  "painted (set_strokeStyle v c) = painted c"
  "strokeStyle (set_strokeStyle v c) = (case v of None \<Rightarrow> strokeStyle c | Some s \<Rightarrow> s)"
  by (simp_all add: set_strokeStyle_def split: option.splits)

lemma drawLines_frame:
  fixes c :: Context2D and style :: WaveformStyle and p :: ColorPreset and data :: "real list"
    and csi :: int
  defines "sty \<equiv> (case lineStrokeStyle style p (real (width c)) of
                     None \<Rightarrow> strokeStyle c | Some s \<Rightarrow> s)"
    and "pts \<equiv> (\<lambda>r. map (\<lambda>i. if i = 0
                then MoveTo (real i) (lineY data (startSampleOf (width c) csi) r (real (height c)) i)
                else LineTo (real i) (lineY data (startSampleOf (width c) csi) r (real (height c)) i))
           [0..<width c])"
  shows "painted (drawLines style p data csi c) = painted c @
     Stroke sty 2 (globalAlpha c) (pts False) #
     (if style = ReflectedLine then [Stroke sty 2 (1 / 2) (pts True)] else [])"
  by (simp add: drawLines_def Let_def drawLine_frame set_strokeStyle_frame sty_def pts_def
        split: option.split)

lemma drawWaveform_lines:
  assumes "style = Line \<or> style = GradientLine \<or> style = ReflectedLine"
  shows "drawWaveform an ctx buf t style p tr fd =
     Inr (drawLines style p (channelData buf) \<lfloor>t * sampleRate buf\<rfloor> (background tr ctx))"
  using assms by (auto simp: drawWaveform_def Let_def)

lemma amplitudeAt_outside:
  assumes "k < 0 \<or> real (length data) \<le> k"
  shows "amplitudeAt data k = 0"
proof -
  have "js_index data k = None"
  proof (cases "k < 0")
    case True
    then show ?thesis by (simp add: js_index_def)
  next
    case False
    with assms have "real (length data) \<le> k" by simp
    then have "\<not> (k = of_int \<lfloor>k\<rfloor> \<and> nat \<lfloor>k\<rfloor> < length data)"
      by (metis False floor_of_nat not_le of_nat_less_iff of_nat_nat zero_le_floor)
    then show ?thesis by (auto simp: js_index_def)
  qed
  then show ?thesis by (simp add: amplitudeAt_def)
qed

lemma amplitudeAt_inside: "i < length data \<Longrightarrow> amplitudeAt data (real i) = data ! i"
  by (simp add: amplitudeAt_def js_index_def)

lemma lineY_outside:
  assumes "ss + real i < 0 \<or> real (length data) \<le> ss + real i"
  shows "lineY data ss r h i = h / 2"
  using amplitudeAt_outside[OF assms] by (simp add: lineY_def Let_def)

lemma startSampleOf_nonneg: "0 \<le> startSampleOf n csi"
  by (simp add: startSampleOf_def)

text \<open>
  C8. For the Line, GradientLine and ReflectedLine styles the renderer returns a frame at
  every position, also before the start and past the end of the signal, for every preset
  and snapshot: it never raises. The frame is the background and the polyline (and its
  mirrored copy at half opacity for ReflectedLine), with one point per pixel column; the
  point of column \<open>i\<close> is at \<open>lineY\<close> of sample index \<open>startSample + i\<close>. Whenever
  that index lies before index 0 or past the last sample, the amplitude read is 0 and the
  point lies on the vertical centre \<open>height / 2\<close>, in both the plain and the mirrored line.
  (The window never starts before index 0, and an index within the signal reads its sample.)
\<close>

theorem line_window_outside_signal_is_silence:
  fixes ctx :: Context2D and buf :: AudioBuffer and t :: real
  defines "h \<equiv> real (height ctx)"
    and "ss \<equiv> startSampleOf (width ctx) \<lfloor>t * sampleRate buf\<rfloor>"
    and "data \<equiv> channelData buf"
  assumes st: "style = Line \<or> style = GradientLine \<or> style = ReflectedLine"
  shows "\<exists>c' sty pts rest.
      drawWaveform an ctx buf t style p tr fd = Inr c'
      \<and> painted c' = painted (background tr ctx) @ Stroke sty 2 (globalAlpha ctx) (pts False) # rest
      \<and> rest = (if style = ReflectedLine then [Stroke sty 2 (1 / 2) (pts True)] else [])
      \<and> (\<forall>r. length (pts r) = width ctx)
      \<and> (\<forall>r. \<forall>i < width ctx. pts r ! i =
              (if i = 0 then MoveTo (real i) (lineY data ss r h i)
               else LineTo (real i) (lineY data ss r h i)))
      \<and> (\<forall>i. ss + real i < 0 \<or> real (length data) \<le> ss + real i \<longrightarrow>
              amplitudeAt data (ss + real i) = 0
              \<and> lineY data ss False h i = h / 2 \<and> lineY data ss True h i = h / 2)
      \<and> 0 \<le> ss
      \<and> (\<forall>i < length data. amplitudeAt data (real i) = data ! i)"
proof -
  let ?b = "background tr ctx"
  define sty where "sty = (case lineStrokeStyle style p (real (width ?b)) of
                     None \<Rightarrow> strokeStyle ?b | Some s \<Rightarrow> s)"
  define pts where "pts = (\<lambda>r. map (\<lambda>i. if i = 0
                then MoveTo (real i) (lineY data ss r h i)
                else LineTo (real i) (lineY data ss r h i))
           [0..<width ctx])"
  have dw: "drawWaveform an ctx buf t style p tr fd =
      Inr (drawLines style p data \<lfloor>t * sampleRate buf\<rfloor> ?b)"
    unfolding data_def using st by (rule drawWaveform_lines)
  have pt: "painted (drawLines style p data \<lfloor>t * sampleRate buf\<rfloor> ?b) =
      painted ?b @ Stroke sty 2 (globalAlpha ctx) (pts False) #
        (if style = ReflectedLine then [Stroke sty 2 (1 / 2) (pts True)] else [])"
    by (simp add: drawLines_frame background_frame(1-3) sty_def pts_def ss_def h_def)
  have len: "\<forall>r. length (pts r) = width ctx" by (simp add: pts_def)
  have nth: "\<forall>r. \<forall>i < width ctx. pts r ! i =
              (if i = 0 then MoveTo (real i) (lineY data ss r h i)
               else LineTo (real i) (lineY data ss r h i))"
    by (simp add: pts_def)
  have out: "\<forall>i. ss + real i < 0 \<or> real (length data) \<le> ss + real i \<longrightarrow>
              amplitudeAt data (ss + real i) = 0
              \<and> lineY data ss False h i = h / 2 \<and> lineY data ss True h i = h / 2"
    by (simp add: amplitudeAt_outside lineY_outside)
  have nn: "0 \<le> ss" unfolding ss_def by (rule startSampleOf_nonneg)
  have ins: "\<forall>i < length data. amplitudeAt data (real i) = data ! i"
    by (simp add: amplitudeAt_inside)
  from dw pt len nth out nn ins show ?thesis by blast
qed

text \<open>
  The theorem for ReflectedLine at position 10 s of the three-second example signal, on the
  application's canvas: the window starts past the last sample, the render returns a frame
  of background and two strokes, and the first point lies at the centre, 360.
\<close>

theorem line_window_outside_signal_is_silence_witness:
  "(ReflectedLine = Line \<or> ReflectedLine = GradientLine \<or> ReflectedLine = ReflectedLine)
   \<and> real (length (channelData exampleBuffer))
        \<le> startSampleOf (width initialContext) \<lfloor>10 * sampleRate exampleBuffer\<rfloor> + real 0
   \<and> (\<exists>c'. drawWaveform None initialContext exampleBuffer 10 ReflectedLine (COLOR_PRESETS ! 0)
              False None = Inr c' \<and> length (painted c') = 3)
   \<and> lineY (channelData exampleBuffer)
        (startSampleOf (width initialContext) \<lfloor>10 * sampleRate exampleBuffer\<rfloor>) False
        (real (height initialContext)) 0 = 360"
proof -
  have st: "ReflectedLine = Line \<or> ReflectedLine = GradientLine \<or> ReflectedLine = ReflectedLine"
    by simp
  have out: "real (length (channelData exampleBuffer))
        \<le> startSampleOf (width initialContext) \<lfloor>10 * sampleRate exampleBuffer\<rfloor> + real 0"
    by (simp add: exampleBuffer_def startSampleOf_def initialContext_def CANVAS_WIDTH_def)
  from line_window_outside_signal_is_silence[OF st, where an=None and ctx=initialContext
      and buf=exampleBuffer and t=10 and p="COLOR_PRESETS ! 0" and tr=False and fd=None]
  obtain c' sty pts rest where
    c': "drawWaveform None initialContext exampleBuffer 10 ReflectedLine (COLOR_PRESETS ! 0)
              False None = Inr c'"
    and pt: "painted c' = painted (background False initialContext) @
        Stroke sty 2 (globalAlpha initialContext) (pts False) # rest"
    and rest: "rest = (if ReflectedLine = ReflectedLine then [Stroke sty 2 (1 / 2) (pts True)] else [])"
    and o: "\<forall>i. startSampleOf (width initialContext) \<lfloor>10 * sampleRate exampleBuffer\<rfloor> + real i < 0
          \<or> real (length (channelData exampleBuffer))
              \<le> startSampleOf (width initialContext) \<lfloor>10 * sampleRate exampleBuffer\<rfloor> + real i \<longrightarrow>
        amplitudeAt (channelData exampleBuffer)
          (startSampleOf (width initialContext) \<lfloor>10 * sampleRate exampleBuffer\<rfloor> + real i) = 0
        \<and> lineY (channelData exampleBuffer)
            (startSampleOf (width initialContext) \<lfloor>10 * sampleRate exampleBuffer\<rfloor>) False
            (real (height initialContext)) i = real (height initialContext) / 2
        \<and> lineY (channelData exampleBuffer)
            (startSampleOf (width initialContext) \<lfloor>10 * sampleRate exampleBuffer\<rfloor>) True
            (real (height initialContext)) i = real (height initialContext) / 2"
    by blast
  have len: "length (painted c') = 3"
    unfolding pt rest by (simp add: background_frame)
  from o out have "lineY (channelData exampleBuffer)
        (startSampleOf (width initialContext) \<lfloor>10 * sampleRate exampleBuffer\<rfloor>) False
        (real (height initialContext)) 0 = real (height initialContext) / 2"
    by blast
  then have y: "lineY (channelData exampleBuffer)
        (startSampleOf (width initialContext) \<lfloor>10 * sampleRate exampleBuffer\<rfloor>) False
        (real (height initialContext)) 0 = 360"
    by (simp add: initialContext_def CANVAS_HEIGHT_def)
  from st out c' len y show ?thesis by blast
qed

lemma firstColor_nonempty: "colors p \<noteq> [] \<Longrightarrow> firstColor p = Some (Color (colors p ! 0))"
  by (simp add: firstColor_def nth_opt_def)

text \<open>
  C9. For the Line style the stroke colour is the preset's first colour as a solid colour,
  for every preset with at least one colour: the frame is the background and one stroke of
  width 2 in that colour. A preset of two or more stops gives a gradient stroke for
  GradientLine and ReflectedLine, never for Line.
\<close>

theorem line_style_stroke_is_first_colour:
  assumes ne: "colors p \<noteq> []"
  shows "lineStrokeStyle Line p w = Some (Color (colors p ! 0))
    \<and> (\<exists>c' pts. drawWaveform an ctx buf t Line p tr fd = Inr c'
          \<and> painted c' = painted (background tr ctx) @
               [Stroke (Color (colors p ! 0)) 2 (globalAlpha ctx) pts])
    \<and> (2 \<le> length (colors p) \<longrightarrow>
          (\<exists>g. lineStrokeStyle GradientLine p w = Some (Gradient g))
          \<and> (\<exists>g. lineStrokeStyle ReflectedLine p w = Some (Gradient g)))"
proof -
  have a: "lineStrokeStyle Line p w = Some (Color (colors p ! 0))" for w
    using ne by (simp add: lineStrokeStyle_def firstColor_nonempty)
  have st: "Line = Line \<or> Line = GradientLine \<or> Line = ReflectedLine" by simp
  have "painted (drawLines Line p (channelData buf) \<lfloor>t * sampleRate buf\<rfloor> (background tr ctx)) =
      painted (background tr ctx) @ [Stroke (Color (colors p ! 0)) 2 (globalAlpha ctx)
        (map (\<lambda>i. if i = 0
                then MoveTo (real i) (lineY (channelData buf)
                       (startSampleOf (width ctx) \<lfloor>t * sampleRate buf\<rfloor>) False (real (height ctx)) i)
                else LineTo (real i) (lineY (channelData buf)
                       (startSampleOf (width ctx) \<lfloor>t * sampleRate buf\<rfloor>) False (real (height ctx)) i))
           [0..<width ctx])]"
    by (simp add: drawLines_frame a background_frame(1-3))
  then have b: "\<exists>c' pts. drawWaveform an ctx buf t Line p tr fd = Inr c'
          \<and> painted c' = painted (background tr ctx) @
               [Stroke (Color (colors p ! 0)) 2 (globalAlpha ctx) pts]"
    unfolding drawWaveform_lines[OF st] by blast
  have c: "(\<exists>g. lineStrokeStyle GradientLine p w = Some (Gradient g))
          \<and> (\<exists>g. lineStrokeStyle ReflectedLine p w = Some (Gradient g))"
    if "2 \<le> length (colors p)"
    using that by (simp add: lineStrokeStyle_def)
  from a b c show ?thesis by blast
qed

text \<open>
  The theorem at the two-stop Synthwave preset: the Line stroke is the solid first colour,
  where GradientLine strokes with a gradient.
\<close>

theorem line_style_stroke_is_first_colour_witness:
  "colors (COLOR_PRESETS ! 0) \<noteq> [] \<and> 2 \<le> length (colors (COLOR_PRESETS ! 0))
   \<and> lineStrokeStyle Line (COLOR_PRESETS ! 0) 1280 = Some (Color ''#ec4899'')
   \<and> (\<exists>c' pts. drawWaveform None initialContext exampleBuffer 1 Line (COLOR_PRESETS ! 0) False None
            = Inr c'
         \<and> painted c' = painted (background False initialContext) @
               [Stroke (Color ''#ec4899'') 2 1 pts])
   \<and> (\<exists>g. lineStrokeStyle GradientLine (COLOR_PRESETS ! 0) 1280 = Some (Gradient g))"
proof -
  have ne: "colors (COLOR_PRESETS ! 0) \<noteq> []" by (simp add: COLOR_PRESETS_def)
  have two: "2 \<le> length (colors (COLOR_PRESETS ! 0))" by (simp add: COLOR_PRESETS_def)
  have c0: "colors (COLOR_PRESETS ! 0) ! 0 = ''#ec4899''" by (simp add: COLOR_PRESETS_def)
  have al: "globalAlpha initialContext = 1" by (simp add: initialContext_def)
  from line_style_stroke_is_first_colour[OF ne, where w=1280 and an=None and ctx=initialContext
      and buf=exampleBuffer and t=1 and tr=False and fd=None] two
  show ?thesis unfolding c0 al using ne by blast
qed

section \<open>The Pulse style\<close>

lemma bassFrequencies_div: "bassFrequencies fd = length fd div 10"
proof -
  have "real (length fd) * (1 / 10) = real (length fd) / real 10" by simp
  then show ?thesis
    unfolding bassFrequencies_def by (simp only: floor_divide_of_nat_eq nat_int)
qed

lemma fold_add_sum:
  "fold (\<lambda>i s. s + f i) [0..<n] (a::real) = a + (\<Sum>i<n. f i)"
  by (induction n) simp_all

lemma bassSum_sum: "bassSum fd = (\<Sum>i<bassFrequencies fd. real (unat (fd ! i)))"
  by (simp add: bassSum_def fold_add_sum)

lemma byte_le_255: "real (unat (b :: byte)) \<le> 255"
proof -
  have "unat b < 2 ^ 8" using unsigned_less[of b] by simp
  then have "unat b \<le> 255" by simp
  then have "real (unat b) \<le> real 255" by (simp only: of_nat_le_iff)
  then show ?thesis by (simp del: of_nat_unat)
qed

lemma bassSum_bounds: "0 \<le> bassSum fd" "bassSum fd \<le> 255 * real (bassFrequencies fd)"
proof -
  show "0 \<le> bassSum fd" unfolding bassSum_sum by (rule sum_nonneg) (rule of_nat_0_le_iff)
  have "(\<Sum>i<bassFrequencies fd. real (unat (fd ! i))) \<le> (\<Sum>i<bassFrequencies fd. 255)"
    by (rule sum_mono) (rule byte_le_255)
  then show "bassSum fd \<le> 255 * real (bassFrequencies fd)"
    unfolding bassSum_sum by simp
qed

lemma bassSum_loud:
  assumes "\<forall>i<bassFrequencies fd. fd ! i = 255"
  shows "bassSum fd = 255 * real (bassFrequencies fd)"
  using assms unfolding bassSum_sum by simp

lemma firstColorWith_nonempty:
  "colors p \<noteq> [] \<Longrightarrow> firstColorWith p sfx = Some (Color (colors p ! 0 @ sfx))"
  by (simp add: firstColorWith_def nth_opt_def)

lemma drawPulse_frame:
  assumes r: "pulseRadius (real (height c)) fd = Some r"
    and s: "getActiveStyle p (real (height c) / 2 - r) (real (height c) / 2 + r) = Some s"
    and ne: "colors p \<noteq> []"
  shows "\<exists>c'. drawPulse p fd c = Inr c' \<and> width c' = width c \<and> height c' = height c
    \<and> globalAlpha c' = globalAlpha c
    \<and> painted c' = painted c @
      [Fill (Color (colors p ! 0 @ ''33'')) (globalAlpha c)
         [Arc (real (width c) / 2) (real (height c) / 2) r 0 (2 * pi)],
       Stroke s 3 (globalAlpha c) [Arc (real (width c) / 2) (real (height c) / 2) r 0 (2 * pi)],
       Stroke (Color (colors p ! 0 @ ''80'')) 1 (globalAlpha c)
         [Arc (real (width c) / 2) (real (height c) / 2) (real (height c) * (1 / 4)) 0 (2 * pi)],
       Stroke (Color (colors p ! 0 @ ''80'')) 1 (globalAlpha c)
         [Arc (real (width c) / 2) (real (height c) / 2) (real (height c) * (4 / 10)) 0 (2 * pi)]]"
  using r s by (simp add: drawPulse_def Let_def canvas_defs firstColorWith_nonempty[OF ne])

lemma drawWaveform_pulse:
  "drawWaveform an ctx buf t Pulse p tr (Some fd) = drawPulse p fd (background tr ctx)"
  by (simp add: drawWaveform_def Let_def)

text \<open>
  C5. For the Pulse style and a snapshot with at least one bass bin (ten bins or more; the
  application's snapshots have 1024), the bass bins are the lowest tenth of the bins, and
  the radius of the pulsing circle is a tenth of the frame height plus \<open>bassAvg / 255\<close>
  times half the height, where \<open>bassAvg\<close> is the mean of the bass bins. The radius lies
  between 10% and 60% of the height, and equals 60% of the height when every bass bin is
  255. The frame is the background, the filled and stroked pulsing circle at the centre,
  and two rings of line width 1 at radius 25% and 40% of the height. (With fewer than ten
  bins the mean is \<open>0 / 0\<close> and no pulsing circle is drawn.)
\<close>

theorem pulse_radius_from_bass_average:
  fixes ctx :: Context2D and fd :: "byte list"
  defines "h \<equiv> real (height ctx)"
    and "centerX \<equiv> real (width ctx) / 2"
    and "centerY \<equiv> real (height ctx) / 2"
    and "n \<equiv> length fd div 10"
  defines "bass \<equiv> (\<Sum>i<n. real (unat (fd ! i))) / real n"
  defines "r \<equiv> h * (1 / 10) + (bass / 255) * h * (1 / 2)"
  assumes len: "10 \<le> length fd" and ne: "colors p \<noteq> []"
  shows "bassFrequencies fd = n \<and> bassAvg fd = Some bass \<and> pulseRadius h fd = Some r
    \<and> (\<exists>c' s. drawWaveform an ctx buf t Pulse p tr (Some fd) = Inr c'
          \<and> getActiveStyle p (centerY - r) (centerY + r) = Some s
          \<and> painted c' = painted (background tr ctx) @
              [Fill (Color (colors p ! 0 @ ''33'')) (globalAlpha ctx) [Arc centerX centerY r 0 (2 * pi)],
               Stroke s 3 (globalAlpha ctx) [Arc centerX centerY r 0 (2 * pi)],
               Stroke (Color (colors p ! 0 @ ''80'')) 1 (globalAlpha ctx)
                 [Arc centerX centerY (h * (1 / 4)) 0 (2 * pi)],
               Stroke (Color (colors p ! 0 @ ''80'')) 1 (globalAlpha ctx)
                 [Arc centerX centerY (h * (4 / 10)) 0 (2 * pi)]])
    \<and> h * (1 / 10) \<le> r \<and> r \<le> h * (1 / 10) + h * (5 / 10)
    \<and> ((\<forall>i<n. fd ! i = 255) \<longrightarrow> r = (6 / 10) * h)"
proof -
  have n: "bassFrequencies fd = n" by (simp add: bassFrequencies_div n_def)
  have npos: "0 < n" using len by (simp add: n_def)
  have bs: "bassSum fd / real n = bass" by (simp add: bassSum_sum n bass_def)
  have avg: "bassAvg fd = Some bass" using npos bs by (simp add: bassAvg_def n)
  have r: "pulseRadius h fd = Some r"
    by (simp add: pulseRadius_def avg Let_def r_def)
  have b0: "0 \<le> bass" using bassSum_bounds(1)[of fd] npos bs by (metis divide_nonneg_nonneg of_nat_0_le_iff)
  have "bassSum fd \<le> 255 * real n" using bassSum_bounds(2)[of fd] n by simp
  then have b1: "bass \<le> 255" using npos bs by (simp add: pos_divide_le_eq flip: bs)
  have h0: "0 \<le> h" by (simp add: h_def)
  have lo: "h * (1 / 10) \<le> r"
    using b0 h0 by (simp add: r_def)
  have "(bass / 255) * h \<le> 1 * h"
    using b1 h0 by (intro mult_right_mono) simp_all
  then have hi: "r \<le> h * (1 / 10) + h * (5 / 10)" by (simp add: r_def)
  have loud: "r = (6 / 10) * h" if "\<forall>i<n. fd ! i = 255"
  proof -
    have "bassSum fd = 255 * real n" using bassSum_loud[of fd] that n by simp
    then have "bass = 255" using npos bs by simp
    then show ?thesis by (simp add: r_def)
  qed
  obtain s where s: "getActiveStyle p (centerY - r) (centerY + r) = Some s"
    using getActiveStyle_nonempty[OF ne] by blast
  let ?b = "background tr ctx"
  have r': "pulseRadius (real (height ?b)) fd = Some r"
    using r by (simp add: background_frame h_def)
  have s': "getActiveStyle p (real (height ?b) / 2 - r) (real (height ?b) / 2 + r) = Some s"
    using s by (simp add: background_frame centerY_def)
  from drawPulse_frame[OF r' s' ne] s
  have dr: "\<exists>c' s. drawWaveform an ctx buf t Pulse p tr (Some fd) = Inr c'
          \<and> getActiveStyle p (centerY - r) (centerY + r) = Some s
          \<and> painted c' = painted (background tr ctx) @
              [Fill (Color (colors p ! 0 @ ''33'')) (globalAlpha ctx) [Arc centerX centerY r 0 (2 * pi)],
               Stroke s 3 (globalAlpha ctx) [Arc centerX centerY r 0 (2 * pi)],
               Stroke (Color (colors p ! 0 @ ''80'')) 1 (globalAlpha ctx)
                 [Arc centerX centerY (h * (1 / 4)) 0 (2 * pi)],
               Stroke (Color (colors p ! 0 @ ''80'')) 1 (globalAlpha ctx)
                 [Arc centerX centerY (h * (4 / 10)) 0 (2 * pi)]]"
    unfolding drawWaveform_pulse
    by (auto simp: background_frame(1-3) h_def centerX_def centerY_def)
  from n avg r dr lo hi loud show ?thesis by blast
qed

text \<open>
  The theorem on the application's canvas (1280 by 720) with the all-255 snapshot: 102 bass
  bins, radius \<open>432 = 0.6 * 720\<close>, and the first ring at radius \<open>180 = 0.25 * 720\<close>.
\<close>

theorem pulse_radius_from_bass_average_witness:
  "10 \<le> length loudSnapshot \<and> colors (COLOR_PRESETS ! 0) \<noteq> []
   \<and> bassFrequencies loudSnapshot = 102
   \<and> pulseRadius (real (height initialContext)) loudSnapshot = Some 432
   \<and> (\<exists>c'. drawWaveform None initialContext exampleBuffer 0 Pulse (COLOR_PRESETS ! 0) False
              (Some loudSnapshot) = Inr c'
         \<and> length (painted c') = 5 \<and> painted c' ! 3 =
              Stroke (Color ''#ec489980'') 1 1 [Arc 640 360 180 0 (2 * pi)])"
proof -
  have len: "10 \<le> length loudSnapshot" by (simp add: loudSnapshot_def)
  have ne: "colors (COLOR_PRESETS ! 0) \<noteq> []" by (simp add: COLOR_PRESETS_def)
  have loud: "\<forall>i<length loudSnapshot div 10. loudSnapshot ! i = 255"
    by (simp add: loudSnapshot_def)
  note t = pulse_radius_from_bass_average[OF len ne, where an=None and ctx=initialContext
      and buf=exampleBuffer and t=0 and tr=False]
  from t have n: "bassFrequencies loudSnapshot = 102"
    by (simp add: loudSnapshot_def)
  from t loud have r: "pulseRadius (real (height initialContext)) loudSnapshot = Some 432"
    by (simp add: initialContext_def CANVAS_HEIGHT_def)
  from t obtain c' o1 o2 o4 where
    c': "drawWaveform None initialContext exampleBuffer 0 Pulse (COLOR_PRESETS ! 0) False
              (Some loudSnapshot) = Inr c'"
    and pt: "painted c' = painted (background False initialContext) @
       [o1, o2,
        Stroke (Color (colors (COLOR_PRESETS ! 0) ! 0 @ ''80'')) 1 (globalAlpha initialContext)
          [Arc (real (width initialContext) / 2) (real (height initialContext) / 2)
             (real (height initialContext) * (1 / 4)) 0 (2 * pi)],
        o4]"
    by blast
  have "length (painted c') = 5 \<and> painted c' ! 3 =
              Stroke (Color ''#ec489980'') 1 1 [Arc 640 360 180 0 (2 * pi)]"
    unfolding pt
    by (simp add: background_frame initialContext_def CANVAS_WIDTH_def CANVAS_HEIGHT_def
          COLOR_PRESETS_def)
  with len ne n r c' show ?thesis by blast
qed

section \<open>The renderer as a function of its inputs\<close>

lemma background_same:
  assumes "width c1 = width c2" "height c1 = height c2" "globalAlpha c1 = globalAlpha c2"
  shows "sameCanvas (background tr c1) (background tr c2)"
  using assms by (simp add: sameCanvas_def background_frame)

lemma drawBars_same:
  assumes R: "sameCanvas c1 c2" and ne: "colors p \<noteq> []"
  shows "frameOf (drawBars an style p fd c1) = frameOf (drawBars an style p fd c2)"
proof (cases "barCountOf an style")
  case (Inl e)
  then show ?thesis by (simp add: drawBars_def)
next
  case (Inr bc)
  obtain s where s1: "getActiveStyle p (real (height c1) / 2) (real (height c1)) = Some s"
    using getActiveStyle_nonempty[OF ne] by blast
  then have s2: "getActiveStyle p (real (height c2) / 2) (real (height c2)) = Some s"
    using R by (simp add: sameCanvas_def)
  from R have e: "width c1 = width c2" "height c1 = height c2" "globalAlpha c1 = globalAlpha c2"
      "painted c1 = painted c2"
    by (simp_all add: sameCanvas_def)
  from drawBars_frame[OF Inr s1, of fd, unfolded e] drawBars_frame[OF Inr s2, of fd]
  show ?thesis by (auto simp: frameOf_def)
qed

lemma drawPulse_same:
  assumes R: "sameCanvas c1 c2" and ne: "colors p \<noteq> []"
  shows "frameOf (drawPulse p fd c1) = frameOf (drawPulse p fd c2)"
proof -
  obtain col where col: "firstColorWith p ''33'' = Some (Color (col @ ''33''))"
      "firstColorWith p ''80'' = Some (Color (col @ ''80''))" "firstColor p = Some (Color col)"
    using ne by (cases "colors p") (simp_all add: firstColorWith_def firstColor_def nth_opt_def)
  have g: "\<exists>s. getActiveStyle p y1 y2 = Some s" for y1 y2
    using getActiveStyle_nonempty[OF ne] by blast
  show ?thesis
  proof (cases "pulseRadius (real (height c1)) fd")
    case None
    then have n2: "pulseRadius (real (height c2)) fd = None" using R by (simp add: sameCanvas_def)
    show ?thesis using R None n2 col
      by (simp add: drawPulse_def Let_def frameOf_def sameCanvas_def canvas_defs getActiveStyle_NaN_def)
  next
    case (Some r)
    then have n2: "pulseRadius (real (height c2)) fd = Some r" using R by (simp add: sameCanvas_def)
    obtain s where s: "getActiveStyle p (real (height c1) / 2 - r) (real (height c1) / 2 + r) = Some s"
      using g by blast
    then have s2: "getActiveStyle p (real (height c2) / 2 - r) (real (height c2) / 2 + r) = Some s"
      using R by (simp add: sameCanvas_def)
    show ?thesis using R Some n2 col s s2
      by (simp add: drawPulse_def Let_def frameOf_def sameCanvas_def canvas_defs)
  qed
qed

lemma drawTick_same:
  assumes "samePen c1 c2"
  shows "samePen (drawTick fd i c1) (drawTick fd i c2)"
  using assms
  by (simp add: samePen_def sameCanvas_def drawTick_def Let_def canvas_defs split: option.splits)

lemma fold_same:
  assumes step: "\<And>i c1 c2. R c1 c2 \<Longrightarrow> R (f i c1) (f i c2)" and "R c1 c2"
  shows "R (fold f xs c1) (fold f xs c2)"
  using assms(2) by (induction xs arbitrary: c1 c2) (simp_all add: step)

lemma drawCircle_same:
  assumes R: "sameCanvas c1 c2" and ne: "colors p \<noteq> []"
  shows "sameCanvas (drawCircle p fd c1) (drawCircle p fd c2)"
proof -
  have "\<exists>s. circleStrokeStyle p cx cy r h = Some s" for cx cy r h
    using ne by (cases "colors p") (simp_all add: circleStrokeStyle_def firstColor_def nth_opt_def)
  then obtain s where s1: "circleStrokeStyle p (real (width c1) / 2) (real (height c1) / 2)
      (real (height c1) / 4) (real (height c1)) = Some s" by blast
  then have s2: "circleStrokeStyle p (real (width c2) / 2) (real (height c2) / 2)
      (real (height c2) / 4) (real (height c2)) = Some s"
    using R by (simp add: sameCanvas_def)
  let ?d1 = "(set_strokeStyle (Some s) c1)\<lparr>lineWidth := 2\<rparr>"
  let ?d2 = "(set_strokeStyle (Some s) c2)\<lparr>lineWidth := 2\<rparr>"
  have "samePen ?d1 ?d2"
    using R by (simp add: samePen_def sameCanvas_def set_strokeStyle_def)
  then have "samePen (fold (drawTick fd) [0..<360] ?d1) (fold (drawTick fd) [0..<360] ?d2)"
    by (intro fold_same[where R=samePen and f="drawTick fd"] drawTick_same)
  then show ?thesis
    by (simp add: drawCircle_def Let_def s1 s2 samePen_def)
qed

lemma drawLines_same:
  assumes R: "sameCanvas c1 c2" and ne: "colors p \<noteq> []"
  shows "painted (drawLines style p data csi c1) = painted (drawLines style p data csi c2)"
proof -
  have ex: "\<exists>s. lineStrokeStyle st p w = Some s" for st w
    using ne by (cases "colors p") (simp_all add: lineStrokeStyle_def firstColor_def nth_opt_def)
  have k: "(case lineStrokeStyle st p w of None \<Rightarrow> a | Some s \<Rightarrow> s) = the (lineStrokeStyle st p w)"
    for st w a
    using ex[of st w] by auto
  show ?thesis
    using R by (simp add: drawLines_frame k sameCanvas_def)
qed

text \<open>
  The outcome of the renderer (the frame, or the exception) is a function of the target
  canvas' size and global alpha, of the signal, position, snapshot and configuration, and,
  for the Equalizer style with a snapshot, of the session's analyser ref: it does not depend
  on the bitmap, path, fill and stroke style and line width the canvas had before.
\<close>

lemma drawWaveform_frame_determined:
  assumes w: "width c1 = width c2" and h: "height c1 = height c2"
    and a: "globalAlpha c1 = globalAlpha c2"
    and ne: "colors p \<noteq> []"
    and an: "style = Equalizer \<and> fd \<noteq> None \<longrightarrow> an1 = an2"
  shows "frameOf (drawWaveform an1 c1 buf t style p tr fd) =
         frameOf (drawWaveform an2 c2 buf t style p tr fd)"
proof -
  have R: "sameCanvas (background tr c1) (background tr c2)"
    using w h a by (rule background_same)
  then have R0: "painted (background tr c1) = painted (background tr c2)"
    by (simp add: sameCanvas_def)
  have bc: "barCountOf an1 style = barCountOf an2 style" if "fd \<noteq> None"
    using an that by (auto simp: barCountOf_def)
  have bars: "frameOf (drawBars an1 style p x (background tr c1)) =
      frameOf (drawBars an2 style p x (background tr c2))" if "fd = Some x" for x
  proof -
    have "drawBars an1 style p x (background tr c1) = drawBars an2 style p x (background tr c1)"
      using bc that by (simp add: drawBars_def)
    then show ?thesis using drawBars_same[OF R ne] by simp
  qed
  show ?thesis
    using R0 bars drawPulse_same[OF R ne] drawCircle_same[OF R ne] drawLines_same[OF R ne]
    by (cases fd) (auto simp: drawWaveform_def Let_def frameOf_def sameCanvas_def)
qed

section \<open>The export loop\<close>

lemma pulse_returns:
  assumes "10 \<le> length fd"
  shows "\<exists>c'. drawPulse p fd c = Inr c'"
proof -
  have "bassFrequencies fd \<noteq> 0" using assms by (simp add: bassFrequencies_div)
  then obtain r where "pulseRadius (real (height c)) fd = Some r"
    by (simp add: pulseRadius_def bassAvg_def Let_def)
  then show ?thesis by (simp add: drawPulse_def Let_def)
qed

lemma drawWaveform_returns:
  assumes "an \<noteq> None" and "10 \<le> length fd"
  shows "\<exists>c'. drawWaveform an ctx buf t style p tr (Some fd) = Inr c'"
proof -
  have "\<not> isl (barCountOf an style)"
    using assms(1) by (auto simp: barCountOf_def)
  then have b: "\<exists>c'. drawBars an style p fd (background tr ctx) = Inr c'"
    by (simp add: drawBars_returns)
  from b pulse_returns[OF assms(2), of p "background tr ctx"] show ?thesis
    by (auto simp: drawWaveform_def Let_def)
qed

lemma recordAnimation_before:
  assumes e: "elapsedTimeOf t0 now < duration (jobBuffer j)"
    and c: "canvasRef s \<noteq> None" and an: "analyserNode s \<noteq> None" and sp: "10 \<le> length spectrum"
  shows "\<exists>s' j'. recordAnimation t0 now spectrum (s, j) = Inr (s', j')
     \<and> canvasRef s' \<noteq> None \<and> analyserNode s' = analyserNode s \<and> isExporting s' = isExporting s
     \<and> exportProgress s' = elapsedTimeOf t0 now / duration (jobBuffer j) * 100
     \<and> jobBuffer j' = jobBuffer j \<and> scheduled j'
     \<and> recorder j' = recorder j \<and> bufferSourcePlaying j' = bufferSourcePlaying j
     \<and> tracksLive j' = tracksLive j
     \<and> renderedAt j' = renderedAt j @ [elapsedTimeOf t0 now]
     \<and> progressCalls j' = progressCalls j @ [elapsedTimeOf t0 now / duration (jobBuffer j) * 100]"
proof -
  from c obtain ctx where ctx: "canvasRef s = Some ctx" by blast
  from drawWaveform_returns[OF an sp] obtain c' where
    "drawWaveform (analyserNode s) ctx (jobBuffer j) (elapsedTimeOf t0 now) (jobStyle j) (jobPreset j)
       (jobTransparent j) (Some spectrum) = Inr c'" by blast
  with e ctx show ?thesis by (simp add: recordAnimation_def Let_def)
qed

lemma recordAnimation_after:
  assumes e: "\<not> elapsedTimeOf t0 now < duration (jobBuffer j)"
  shows "recordAnimation t0 now spectrum (s, j) =
     Inr (s\<lparr>exportProgress := 100\<rparr>,
          j\<lparr>bufferSourcePlaying := False, recorder := inactive, stopEventPending := True,
            tracksLive := False, progressCalls := progressCalls j @ [100], scheduled := False\<rparr>)"
  using e by (simp add: recordAnimation_def Let_def)

lemma exportLoop_unscheduled: "\<not> scheduled (snd sj) \<Longrightarrow> exportLoop t0 ticks sj = Inr sj"
  by (cases ticks) simp_all

lemma exportLoop_closed:
  fixes t0 :: real
  defines "el \<equiv> (\<lambda>tk :: real \<times> byte list. elapsedTimeOf t0 (fst tk))"
  assumes c: "canvasRef s \<noteq> None" and an: "analyserNode s \<noteq> None" and sch: "scheduled j"
    and sp: "\<forall>tk \<in> set ticks. 10 \<le> length (snd tk)"
  shows "\<exists>s' j'. exportLoop t0 ticks (s, j) = Inr (s', j')
     \<and> jobBuffer j' = jobBuffer j \<and> isExporting s' = isExporting s
     \<and> renderedAt j' = renderedAt j @ map el (takeWhile (\<lambda>tk. el tk < duration (jobBuffer j)) ticks)
     \<and> (if \<forall>tk \<in> set ticks. el tk < duration (jobBuffer j)
         then progressCalls j' = progressCalls j @
                map (\<lambda>tk. el tk / duration (jobBuffer j) * 100) ticks
              \<and> scheduled j' \<and> recorder j' = recorder j
              \<and> bufferSourcePlaying j' = bufferSourcePlaying j \<and> tracksLive j' = tracksLive j
         else progressCalls j' = progressCalls j @
                map (\<lambda>tk. el tk / duration (jobBuffer j) * 100)
                  (takeWhile (\<lambda>tk. el tk < duration (jobBuffer j)) ticks) @ [100]
              \<and> \<not> scheduled j' \<and> recorder j' = inactive \<and> \<not> bufferSourcePlaying j'
              \<and> \<not> tracksLive j' \<and> exportProgress s' = 100)"
  using c an sch sp
proof (induction ticks arbitrary: s j)
  case Nil
  then show ?case by simp
next
  case (Cons tk ticks)
  show ?case
  proof (cases "el tk < duration (jobBuffer j)")
    case True
    then have e: "elapsedTimeOf t0 (fst tk) < duration (jobBuffer j)" by (simp add: el_def)
    have sp1: "10 \<le> length (snd tk)" using Cons.prems(4) by simp
    from recordAnimation_before[OF e Cons.prems(1) Cons.prems(2) sp1]
    obtain s1 j1 where r: "recordAnimation t0 (fst tk) (snd tk) (s, j) = Inr (s1, j1)"
      and c1: "canvasRef s1 \<noteq> None" and a1: "analyserNode s1 \<noteq> None"
      and x1: "isExporting s1 = isExporting s"
      and b1: "jobBuffer j1 = jobBuffer j" and sch1: "scheduled j1"
      and k1: "recorder j1 = recorder j" "bufferSourcePlaying j1 = bufferSourcePlaying j"
        "tracksLive j1 = tracksLive j"
      and r1: "renderedAt j1 = renderedAt j @ [el tk]"
      and p1: "progressCalls j1 = progressCalls j @ [el tk / duration (jobBuffer j) * 100]"
      using Cons.prems(2) unfolding el_def by force
    have sp': "\<forall>tk \<in> set ticks. 10 \<le> length (snd tk)" using Cons.prems(4) by simp
    from Cons.IH[OF c1 a1 sch1 sp'] obtain s' j' where
      l: "exportLoop t0 ticks (s1, j1) = Inr (s', j')"
      and rest: "jobBuffer j' = jobBuffer j1" "isExporting s' = isExporting s1"
        "renderedAt j' = renderedAt j1 @ map el (takeWhile (\<lambda>tk. el tk < duration (jobBuffer j1)) ticks)"
        "(if \<forall>tk \<in> set ticks. el tk < duration (jobBuffer j1)
         then progressCalls j' = progressCalls j1 @
                map (\<lambda>tk. el tk / duration (jobBuffer j1) * 100) ticks
              \<and> scheduled j' \<and> recorder j' = recorder j1
              \<and> bufferSourcePlaying j' = bufferSourcePlaying j1 \<and> tracksLive j' = tracksLive j1
         else progressCalls j' = progressCalls j1 @
                map (\<lambda>tk. el tk / duration (jobBuffer j1) * 100)
                  (takeWhile (\<lambda>tk. el tk < duration (jobBuffer j1)) ticks) @ [100]
              \<and> \<not> scheduled j' \<and> recorder j' = inactive \<and> \<not> bufferSourcePlaying j'
              \<and> \<not> tracksLive j' \<and> exportProgress s' = 100)"
      by blast
    have "exportLoop t0 (tk # ticks) (s, j) = Inr (s', j')"
      using Cons.prems(3) r l by simp
    with rest True show ?thesis
      unfolding b1 x1 r1 p1 k1 by (simp split: if_splits)
  next
    case False
    then have e: "\<not> elapsedTimeOf t0 (fst tk) < duration (jobBuffer j)" by (simp add: el_def)
    show ?thesis
      using False Cons.prems(3)
      by (simp add: recordAnimation_after[OF e] exportLoop_unscheduled)
  qed
qed

lemma handleExport_Some:
  assumes "handleExport s0 = (s, Some j)"
  shows "canvasRef s \<noteq> None" "analyserNode s = analyserNode s0" "audioBuffer s0 = Some (jobBuffer j)"
    "isExporting s" "exportProgress s = 0" "scheduled j" "renderedAt j = []" "progressCalls j = []"
    "recorder j = recording" "bufferSourcePlaying j" "tracksLive j"
    "jobStyle j = waveformStyle s0" "jobPreset j = colorPreset s0" "jobTransparent j = isTransparent s0"
  using assms by (auto simp: handleExport_def split: option.splits)




lemma loadedApp_fields:
  "canvasRef loadedApp = Some initialContext" "audioBuffer loadedApp = Some exampleBuffer"
  "analyserNode loadedApp = Some \<lparr>fftSize = 2048\<rparr>" "\<not> isExporting loadedApp"
  "\<not> isLoading loadedApp" "waveformStyle loadedApp = Equalizer"
  "isTransparent loadedApp = False" "colorPreset loadedApp = COLOR_PRESETS ! 0"
  by (simp_all add: loadedApp_def handleFileChange_def initialApp_def Let_def)

lemma startedExport_eq: "handleExport loadedApp = (fst startedExport, Some (snd startedExport))"
  by (simp add: startedExport_def handleExport_def loadedApp_fields)

lemma startedExport_fields:
  "jobBuffer (snd startedExport) = exampleBuffer" "isExporting (fst startedExport)"
  "audioBuffer (fst startedExport) = Some exampleBuffer"
  "canvasRef (fst startedExport) = Some initialContext"
  "analyserNode (fst startedExport) = Some \<lparr>fftSize = 2048\<rparr>"
  "scheduled (snd startedExport)" "\<not> isLoading (fst startedExport)"
  by (simp_all add: startedExport_def handleExport_def loadedApp_fields)


text \<open>
  C3, as amended. During export the position of each frame is the wall-clock time elapsed
  since the export's start, \<open>(performance.now() - startTime) / 1000\<close>, read in the callback
  that renders it: the sequence of frame positions is the sequence of the callbacks' clock
  readings, shifted and scaled, up to the first that reaches the duration. It is
  reproducible for the same readings, and is otherwise not fixed by the input and the
  configuration; there is no fixed frame interval.
\<close>

theorem export_positions_follow_wall_clock:
  fixes t0 :: real and ticks :: "(real \<times> byte list) list"
  assumes start: "handleExport s0 = (s, Some j)"
    and an: "analyserNode s0 \<noteq> None"
    and sp: "\<forall>tk \<in> set ticks. 10 \<le> length (snd tk)"
  shows "\<exists>s' j'. exportLoop t0 ticks (s, j) = Inr (s', j')
     \<and> renderedAt j' = map (\<lambda>tk. (fst tk - t0) / 1000)
          (takeWhile (\<lambda>tk. (fst tk - t0) / 1000 < duration (jobBuffer j)) ticks)"
proof -
  note h = handleExport_Some[OF start]
  have an': "analyserNode s \<noteq> None" using an h(2) by simp
  from exportLoop_closed[OF h(1) an' h(6) sp, of t0] h(7)
  show ?thesis by (auto simp: elapsedTimeOf_def)
qed

text \<open>
  The theorem for the example export with readings 1000, 1016 and 1050 ms: frames at 0,
  0.016 and 0.05 seconds.
\<close>

theorem export_positions_follow_wall_clock_witness:
  "handleExport loadedApp = (fst startedExport, Some (snd startedExport))
   \<and> analyserNode loadedApp \<noteq> None
   \<and> (\<exists>s' j'. exportLoop 1000 jitterTicks startedExport = Inr (s', j')
         \<and> renderedAt j' = [0, 2 / 125, 1 / 20])"
proof -
  have an: "analyserNode loadedApp \<noteq> None" by (simp add: loadedApp_fields)
  have sp: "\<forall>tk \<in> set jitterTicks. 10 \<le> length (snd tk)"
    by (simp add: jitterTicks_def loudSnapshot_def)
  from export_positions_follow_wall_clock[OF startedExport_eq an sp, of 1000]
  have "\<exists>s' j'. exportLoop 1000 jitterTicks startedExport = Inr (s', j')
         \<and> renderedAt j' = [0, 2 / 125, 1 / 20]"
    by (auto simp add: jitterTicks_def startedExport_fields exampleBuffer_def
          simp del: exportLoop.simps)
  with startedExport_eq an show ?thesis by blast
qed

lemma startedExport_run:
  assumes sp: "\<forall>tk \<in> set ticks. 10 \<le> length (snd tk)"
  shows "\<exists>s' j'. exportLoop t0 ticks startedExport = Inr (s', j')
     \<and> renderedAt j' = map (\<lambda>tk. (fst tk - t0) / 1000)
          (takeWhile (\<lambda>tk. (fst tk - t0) / 1000 < 3) ticks)"
proof -
  have c: "canvasRef (fst startedExport) \<noteq> None" and a: "analyserNode (fst startedExport) \<noteq> None"
    by (simp_all add: startedExport_fields)
  have r0: "renderedAt (snd startedExport) = []"
    using handleExport_Some(7)[OF startedExport_eq] .
  from exportLoop_closed[OF c a startedExport_fields(6) sp, of t0] r0
  show ?thesis
    by (auto simp add: elapsedTimeOf_def startedExport_fields exampleBuffer_def)
qed

text \<open>
  C3 as stated fails. The same export (same signal, style, preset and canvas) run under two
  sequences of clock readings renders its third frame at different positions, 0.032 and
  0.05; in the second run the position advances by 0.016 and then by 0.034, not by a fixed
  interval.
\<close>

theorem export_clock_is_wall_clock_counterexample:
  "(case exportLoop 1000 steadyTicks startedExport of
      Inl e \<Rightarrow> False
    | Inr (s', j') \<Rightarrow> renderedAt j' = [0, 2 / 125, 4 / 125])
   \<and> (case exportLoop 1000 jitterTicks startedExport of
      Inl e \<Rightarrow> False
    | Inr (s', j') \<Rightarrow> renderedAt j' = [0, 2 / 125, 1 / 20])
   \<and> (2 / 125 - 0 :: real) \<noteq> 1 / 20 - 2 / 125"
proof -
  have sp1: "\<forall>tk \<in> set steadyTicks. 10 \<le> length (snd tk)"
    by (simp add: steadyTicks_def loudSnapshot_def)
  have sp2: "\<forall>tk \<in> set jitterTicks. 10 \<le> length (snd tk)"
    by (simp add: jitterTicks_def loudSnapshot_def)
  from startedExport_run[OF sp1, of 1000]
  have 1: "(case exportLoop 1000 steadyTicks startedExport of
      Inl e \<Rightarrow> False
    | Inr (s', j') \<Rightarrow> renderedAt j' = [0, 2 / 125, 4 / 125])"
    by (auto simp add: steadyTicks_def simp del: exportLoop.simps)
  from startedExport_run[OF sp2, of 1000]
  have 2: "(case exportLoop 1000 jitterTicks startedExport of
      Inl e \<Rightarrow> False
    | Inr (s', j') \<Rightarrow> renderedAt j' = [0, 2 / 125, 1 / 20])"
    by (auto simp add: jitterTicks_def simp del: exportLoop.simps)
  from 1 2 show ?thesis by simp
qed

section \<open>The pages of a run\<close>

text \<open>No canvas operation of the renderer changes the size or the global alpha of the canvas.\<close>

lemma fold_keeps:
  assumes "\<And>i c. (width (f i c), height (f i c), globalAlpha (f i c)) = (width c, height c, globalAlpha c)"
  shows "(width (fold f xs c), height (fold f xs c), globalAlpha (fold f xs c)) =
         (width c, height c, globalAlpha c)"
proof (induction xs arbitrary: c)
  case Nil show ?case by simp
next
  case (Cons x xs)
  show ?case using Cons[of "f x c"] assms[of x c] by simp
qed

lemma drawBar_keeps:
  "(width (drawBar style p fd bw bg i c), height (drawBar style p fd bw bg i c),
    globalAlpha (drawBar style p fd bw bg i c)) = (width c, height c, globalAlpha c)"
  by (simp add: drawBar_def Let_def canvas_defs split: option.splits)

lemma drawTick_keeps:
  "(width (drawTick fd i c), height (drawTick fd i c), globalAlpha (drawTick fd i c)) =
   (width c, height c, globalAlpha c)"
  by (simp add: drawTick_def Let_def canvas_defs split: option.splits)

lemma drawWaveform_keeps_canvas:
  assumes "drawWaveform an c buf t style p tr fd = Inr c'"
  shows "width c' = width c" "height c' = height c" "globalAlpha c = 1 \<Longrightarrow> globalAlpha c' = 1"
proof -
  let ?b = "background tr c"
  have bars: "(width c'', height c'', globalAlpha c'') = (width ?b, height ?b, globalAlpha ?b)"
    if "drawBars an style p x ?b = Inr c''" for x c''
    using that fold_keeps[of "drawBar style p x _ _", OF drawBar_keeps]
    by (auto simp: drawBars_def Let_def split: sum.splits)
  have pulse: "(width c'', height c'', globalAlpha c'') = (width ?b, height ?b, globalAlpha ?b)"
    if "drawPulse p x ?b = Inr c''" for x c''
    using that
    by (auto simp: drawPulse_def Let_def canvas_defs split: sum.splits option.splits)
  have circle: "(width (drawCircle p x ?b), height (drawCircle p x ?b), globalAlpha (drawCircle p x ?b))
      = (width ?b, height ?b, globalAlpha ?b)" for x
    using fold_keeps[of "drawTick x", OF drawTick_keeps]
    by (simp add: drawCircle_def Let_def set_strokeStyle_def split: option.splits)
  have lines: "width (drawLines style p d k ?b) = width ?b \<and> height (drawLines style p d k ?b) = height ?b
      \<and> (globalAlpha ?b = 1 \<longrightarrow> globalAlpha (drawLines style p d k ?b) = 1)" for d k
    by (simp add: drawLines_def Let_def drawLine_frame set_strokeStyle_frame)
  have all: "width c' = width c \<and> height c' = height c \<and> (globalAlpha c = 1 \<longrightarrow> globalAlpha c' = 1)"
    using assms bars pulse circle lines
    by (auto simp: drawWaveform_def Let_def background_frame split: option.splits if_splits)
  then show "width c' = width c" "height c' = height c" "globalAlpha c = 1 \<Longrightarrow> globalAlpha c' = 1"
    by simp_all
qed

text \<open>The events of the page, one by one.\<close>

lemma handleFileChange_refs:
  "canvasRef (handleFileChange f d s) = canvasRef s"
  "isExporting (handleFileChange f d s) = isExporting s"
  by (simp_all add: handleFileChange_def Let_def split: option.splits)

lemma handleExport_snd:
  "snd (handleExport s) = None \<or>
   (\<exists>j. snd (handleExport s) = Some j \<and> scheduled j \<and> recorder j = recording
         \<and> \<not> stopEventPending j)"
  by (cases "canvasRef s"; cases "audioBuffer s") (simp_all add: handleExport_def)

lemma click_result:
  assumes c: "clickCreateVideo p = (p', jo)"
  shows "(jo = None \<and> p' = p)
       \<or> (\<exists>j. jo = Some j \<and> exportButtonEnabled (view p)
             \<and> p' = p\<lparr>state := (state p)\<lparr>isExporting := True, exportProgress := 0,
                                         exportedVideoUrl := None\<rparr>\<rparr>
             \<and> scheduled j \<and> recorder j = recording \<and> \<not> stopEventPending j)"
proof (cases "exportButtonEnabled (view p)")
  case False
  with c show ?thesis by (simp add: clickCreateVideo_def)
next
  case True
  from handleExport_snd[of "(view p)\<lparr>canvasRef := canvasRef (state p)\<rparr>"] show ?thesis
  proof
    assume "snd (handleExport ((view p)\<lparr>canvasRef := canvasRef (state p)\<rparr>)) = None"
    with c True show ?thesis by (simp add: clickCreateVideo_def)
  next
    assume "\<exists>j. snd (handleExport ((view p)\<lparr>canvasRef := canvasRef (state p)\<rparr>)) = Some j
       \<and> scheduled j \<and> recorder j = recording \<and> \<not> stopEventPending j"
    then obtain j where j: "snd (handleExport ((view p)\<lparr>canvasRef := canvasRef (state p)\<rparr>)) = Some j"
      "scheduled j" "recorder j = recording" "\<not> stopEventPending j" by blast
    from c True j(1) have "jo = Some j"
      "p' = p\<lparr>state := (state p)\<lparr>isExporting := True, exportProgress := 0,
                                         exportedVideoUrl := None\<rparr>\<rparr>"
      by (simp_all add: clickCreateVideo_def)
    with j True show ?thesis by simp
  qed
qed


lemma recordAnimation_Inr_cases:
  assumes r: "recordAnimation t0 now sp (s, j) = Inr (s', j')"
  shows "(\<not> elapsedTimeOf t0 now < duration (jobBuffer j)
          \<and> s' = s\<lparr>exportProgress := 100\<rparr>
          \<and> \<not> scheduled j' \<and> recorder j' = inactive \<and> stopEventPending j')
       \<or> (elapsedTimeOf t0 now < duration (jobBuffer j) \<and> canvasRef s = None
          \<and> s' = s\<lparr>exportProgress := elapsedTimeOf t0 now / duration (jobBuffer j) * 100\<rparr>
          \<and> scheduled j' \<and> recorder j' = recorder j \<and> stopEventPending j' = stopEventPending j)
       \<or> (elapsedTimeOf t0 now < duration (jobBuffer j)
          \<and> (\<exists>c c'. canvasRef s = Some c
                \<and> drawWaveform (analyserNode s) c (jobBuffer j) (elapsedTimeOf t0 now) (jobStyle j)
                     (jobPreset j) (jobTransparent j) (Some sp) = Inr c'
                \<and> s' = s\<lparr>canvasRef := Some c',
                          exportProgress := elapsedTimeOf t0 now / duration (jobBuffer j) * 100\<rparr>)
          \<and> scheduled j' \<and> recorder j' = recorder j \<and> stopEventPending j' = stopEventPending j)"
proof (cases "elapsedTimeOf t0 now < duration (jobBuffer j)")
  case False
  from r recordAnimation_after[OF False, of sp s] show ?thesis using False by auto
next
  case True
  show ?thesis
  proof (cases "canvasRef s")
    case None
    with r True show ?thesis by (auto simp: recordAnimation_def Let_def)
  next
    case (Some c)
    show ?thesis
    proof (cases "drawWaveform (analyserNode s) c (jobBuffer j) (elapsedTimeOf t0 now) (jobStyle j)
                     (jobPreset j) (jobTransparent j) (Some sp)")
      case (Inl e)
      with r True Some show ?thesis by (simp add: recordAnimation_def Let_def)
    next
      case (Inr c')
      with r True Some show ?thesis by (auto simp: recordAnimation_def Let_def)
    qed
  qed
qed

lemma recordAnimation_Inr_state:
  assumes "recordAnimation t0 now sp (s, j) = Inr (s', j')"
  shows "analyserNode s' = analyserNode s" "audioBuffer s' = audioBuffer s"
    "frequencyData s' = frequencyData s" "isExporting s' = isExporting s"
    "canvasRef s' = canvasRef s
     \<or> (\<exists>c c'. canvasRef s = Some c \<and> canvasRef s' = Some c'
           \<and> drawWaveform (analyserNode s) c (jobBuffer j) (elapsedTimeOf t0 now) (jobStyle j)
                (jobPreset j) (jobTransparent j) (Some sp) = Inr c')"
  using recordAnimation_Inr_cases[OF assms] by auto



lemma reachable_page:
  "reachable inStep p js \<Longrightarrow> pageCanvas p \<and> sessionAnalyser p js"
proof (induction rule: reachable.induct)
  case mount
  show ?case
    by (simp add: pageCanvas_def sessionAnalyser_def initialPage_def initialApp_def initialContext_def)
next
  case (rerender p js)
  then show ?case
    by (auto simp: render_def pageCanvas_def sessionAnalyser_def split: option.splits)
next
  case (fileChange p js selectedFile decoded)
  let ?s' = "handleFileChange selectedFile decoded (state p)"
  have canvas: "pageCanvas (p\<lparr>state := ?s'\<rparr>)"
    using fileChange.IH by (simp add: pageCanvas_def handleFileChange_refs)
  have session: "sessionAnalyser (p\<lparr>state := ?s'\<rparr>) js"
  proof (cases "analyserNode (state p)")
    case None
    with fileChange.IH have b: "audioBuffer (state p) = None" "audioBuffer (view p) = None"
      "frequencyData (state p) = None" "js = []"
      by (simp_all add: sessionAnalyser_def)
    from None b show ?thesis
      by (simp add: sessionAnalyser_def handleFileChange_def Let_def frequencyBinCount_def
               split: option.splits)
  next
    case (Some a)
    with fileChange.IH have a: "a = \<lparr>fftSize = 2048\<rparr>"
      by (simp add: sessionAnalyser_def)
    from Some a have "analyserNode ?s' = Some \<lparr>fftSize = 2048\<rparr>"
      by (simp add: handleFileChange_def Let_def split: option.splits)
    then show ?thesis by (simp add: sessionAnalyser_def)
  qed
  from canvas session show ?case by simp
next
  case (selectStyle p js style)
  then show ?case by (auto simp: pageCanvas_def sessionAnalyser_def split: option.splits)
next
  case (selectPreset p js preset)
  then show ?case by (auto simp: pageCanvas_def sessionAnalyser_def split: option.splits)
next
  case (toggleTransparent p js)
  then show ?case by (auto simp: pageCanvas_def sessionAnalyser_def split: option.splits)
next
  case (playing p js b)
  then show ?case by (auto simp: pageCanvas_def sessionAnalyser_def split: option.splits)
next
  case (preview p js buffer ctx freqData old spectrum currentTime ctx')
  note k = drawWaveform_keeps_canvas[OF preview.hyps(5)]
  from preview.IH preview.hyps(2,3,4) k show ?case
    by (auto simp: pageCanvas_def sessionAnalyser_def split: option.splits)
next
  case (previewThrows p js buffer ctx freqData old spectrum currentTime e ctx')
  from previewThrows.IH previewThrows.hyps(2,3,4,6,7,8) show ?case
    by (auto simp: pageCanvas_def sessionAnalyser_def split: option.splits)
next
  case (click p js p' jo)
  from click_result[OF click.hyps(3)] click.IH show ?case
    by (auto simp: pageCanvas_def sessionAnalyser_def exportButtonEnabled_def split: option.splits)
next
  case (frame p js k startTime now spectrum s' j')
  note r = recordAnimation_Inr_state[OF frame.hyps(4)]
  from frame.IH frame.hyps(2) have js: "js \<noteq> []" by auto
  have canvas: "pageCanvas (p\<lparr>state := s'\<rparr>)"
    using r(5)
  proof
    assume "canvasRef s' = canvasRef (state p)"
    with frame.IH show ?thesis by (simp add: pageCanvas_def)
  next
    assume "\<exists>c c'. canvasRef (state p) = Some c \<and> canvasRef s' = Some c'
           \<and> drawWaveform (analyserNode (state p)) c (jobBuffer (js ! k)) (elapsedTimeOf startTime now)
                (jobStyle (js ! k)) (jobPreset (js ! k)) (jobTransparent (js ! k)) (Some spectrum) = Inr c'"
    then obtain c c' where c: "canvasRef (state p) = Some c" "canvasRef s' = Some c'"
      and d: "drawWaveform (analyserNode (state p)) c (jobBuffer (js ! k)) (elapsedTimeOf startTime now)
                (jobStyle (js ! k)) (jobPreset (js ! k)) (jobTransparent (js ! k)) (Some spectrum) = Inr c'"
      by blast
    from drawWaveform_keeps_canvas[OF d] frame.IH c show ?thesis
      by (simp add: pageCanvas_def)
  qed
  from frame.IH r(1-3) js have "sessionAnalyser (p\<lparr>state := s'\<rparr>) (js[k := j'])"
    by (auto simp: sessionAnalyser_def split: option.splits)
  with canvas show ?case by simp
next
  case (frameThrows p js k startTime now spectrum e ctx ctx')
  from frameThrows.IH frameThrows.hyps(5-8) show ?case
    by (auto simp: pageCanvas_def sessionAnalyser_def split: option.splits)
next
  case (stopEvent p js k url)
  then show ?case
    by (auto simp: pageCanvas_def sessionAnalyser_def onstop_def split: option.splits)
qed

text \<open>
  In runs in which every click on \<open>Create Video\<close> finds the page rendered from the current
  \<open>isExporting\<close>, exports exclude each other.
\<close>

lemma reachable_exclusive: "reachable inStep p js \<Longrightarrow> inStep \<Longrightarrow> exclusive p js"
proof (induction rule: reachable.induct)
  case mount
  show ?case by (simp add: exclusive_def)
next
  case (rerender p js)
  then show ?case by (simp add: exclusive_def render_def)
next
  case (fileChange p js selectedFile decoded)
  then show ?case by (simp add: exclusive_def handleFileChange_refs)
next
  case (selectStyle p js style)
  then show ?case by (simp add: exclusive_def)
next
  case (selectPreset p js preset)
  then show ?case by (simp add: exclusive_def)
next
  case (toggleTransparent p js)
  then show ?case by (simp add: exclusive_def)
next
  case (playing p js b)
  then show ?case by (simp add: exclusive_def)
next
  case (preview p js buffer ctx freqData old spectrum currentTime ctx')
  then show ?case by (simp add: exclusive_def)
next
  case (previewThrows p js buffer ctx freqData old spectrum currentTime e ctx')
  then show ?case by (simp add: exclusive_def)
next
  case (click p js p' jo)
  from click_result[OF click.hyps(3)] show ?case
  proof
    assume "jo = None \<and> p' = p"
    with click.IH click.prems show ?thesis by simp
  next
    assume "\<exists>j. jo = Some j \<and> exportButtonEnabled (view p)
             \<and> p' = p\<lparr>state := (state p)\<lparr>isExporting := True, exportProgress := 0,
                                         exportedVideoUrl := None\<rparr>\<rparr>
             \<and> scheduled j \<and> recorder j = recording \<and> \<not> stopEventPending j"
    then obtain j where jo: "jo = Some j" and en: "exportButtonEnabled (view p)"
      and p': "p' = p\<lparr>state := (state p)\<lparr>isExporting := True, exportProgress := 0,
                                         exportedVideoUrl := None\<rparr>\<rparr>"
      and hj: "scheduled j" "recorder j = recording" "\<not> stopEventPending j" by blast
    from en click.hyps(2) click.prems have ne: "\<not> isExporting (state p)"
      by (simp add: exportButtonEnabled_def)
    from click.IH click.prems ne have idle: "\<forall>i < length js. \<not> active (js ! i)"
      and pend: "\<forall>i < length js. stopEventPending (js ! i) \<longrightarrow>
           \<not> scheduled (js ! i) \<and> recorder (js ! i) = inactive"
      by (auto simp: exclusive_def)
    show ?thesis
      unfolding exclusive_def jo p' using idle pend hj
      by (auto simp: nth_append less_Suc_eq)
  qed
next
  case (frame p js k startTime now spectrum s' j')
  from recordAnimation_Inr_cases[OF frame.hyps(4)]
  have r2: "(scheduled j' \<and> recorder j' = recorder (js ! k) \<and> stopEventPending j' = stopEventPending (js ! k))
       \<or> (\<not> scheduled j' \<and> recorder j' = inactive \<and> stopEventPending j')"
    by blast
  note r1 = recordAnimation_Inr_state(4)[OF frame.hyps(4)]
  from frame.IH frame.prems
  have u: "\<forall>i < length js. \<forall>k < length js. active (js ! i) \<longrightarrow> active (js ! k) \<longrightarrow> i = k"
    and e: "(\<exists>i < length js. active (js ! i)) \<longrightarrow> isExporting (state p)"
    and q: "\<forall>i < length js. stopEventPending (js ! i) \<longrightarrow>
           \<not> scheduled (js ! i) \<and> recorder (js ! i) = inactive"
    by (simp_all add: exclusive_def)
  have ak: "active (js ! k)" using frame.hyps(3) by (simp add: active_def)
  have np: "\<not> stopEventPending (js ! k)" using q frame.hyps(2,3) by blast
  have aj: "active j'" using r2 by (auto simp: active_def)
  have pj: "stopEventPending j' \<longrightarrow> \<not> scheduled j' \<and> recorder j' = inactive"
    using r2 np by auto
  have ex: "isExporting s'" using e ak frame.hyps(2) r1 by blast
  show ?case
    unfolding exclusive_def
  proof (intro conjI allI impI)
    fix i m assume "i < length (js[k := j'])" "m < length (js[k := j'])"
      "active (js[k := j'] ! i)" "active (js[k := j'] ! m)"
    then show "i = m"
      using u ak frame.hyps(2) by (auto simp: nth_list_update split: if_splits)
  next
    show "isExporting (state (p\<lparr>state := s'\<rparr>))" using ex by simp
  next
    fix i assume "i < length (js[k := j'])" "stopEventPending (js[k := j'] ! i)"
    then show "\<not> scheduled (js[k := j'] ! i)" "recorder (js[k := j'] ! i) = inactive"
      using q pj frame.hyps(2) by (auto simp: nth_list_update split: if_splits)
  qed
next
  case (frameThrows p js k startTime now spectrum e ctx ctx')
  from frameThrows.IH frameThrows.prems
  have u: "\<forall>i < length js. \<forall>k < length js. active (js ! i) \<longrightarrow> active (js ! k) \<longrightarrow> i = k"
    and e: "(\<exists>i < length js. active (js ! i)) \<longrightarrow> isExporting (state p)"
    and q: "\<forall>i < length js. stopEventPending (js ! i) \<longrightarrow>
           \<not> scheduled (js ! i) \<and> recorder (js ! i) = inactive"
    by (simp_all add: exclusive_def)
  have ak: "active (js ! k)" using frameThrows.hyps(3) by (simp add: active_def)
  show ?case
    unfolding exclusive_def
  proof (intro conjI allI impI)
    fix i m assume "i < length (js[k := (js ! k)\<lparr>scheduled := False\<rparr>])"
      "m < length (js[k := (js ! k)\<lparr>scheduled := False\<rparr>])"
      "active (js[k := (js ! k)\<lparr>scheduled := False\<rparr>] ! i)"
      "active (js[k := (js ! k)\<lparr>scheduled := False\<rparr>] ! m)"
    then show "i = m"
      using u ak frameThrows.hyps(2) by (auto simp: nth_list_update split: if_splits)
  next
    show "isExporting (state (p\<lparr>state := (state p)\<lparr>canvasRef := Some ctx'\<rparr>\<rparr>))"
      using e ak frameThrows.hyps(2) by auto
  next
    fix i assume "i < length (js[k := (js ! k)\<lparr>scheduled := False\<rparr>])"
      "stopEventPending (js[k := (js ! k)\<lparr>scheduled := False\<rparr>] ! i)"
    then show "\<not> scheduled (js[k := (js ! k)\<lparr>scheduled := False\<rparr>] ! i)"
      "recorder (js[k := (js ! k)\<lparr>scheduled := False\<rparr>] ! i) = inactive"
      using q frameThrows.hyps(2) by (auto simp: nth_list_update split: if_splits)
  qed
next
  case (stopEvent p js k url)
  from stopEvent.IH stopEvent.prems
  have u: "\<forall>i < length js. \<forall>k < length js. active (js ! i) \<longrightarrow> active (js ! k) \<longrightarrow> i = k"
    and q: "\<forall>i < length js. stopEventPending (js ! i) \<longrightarrow>
           \<not> scheduled (js ! i) \<and> recorder (js ! i) = inactive"
    by (simp_all add: exclusive_def)
  have ak: "active (js ! k)" using stopEvent.hyps(3) by (simp add: active_def)
  have fin: "\<not> active ((js ! k)\<lparr>stopEventPending := False\<rparr>)"
    using q stopEvent.hyps(2,3) by (auto simp: active_def)
  have others: "\<not> active (js ! i)" if "i < length js" "i \<noteq> k" for i
    using u ak that stopEvent.hyps(2) by blast
  let ?js = "js[k := (js ! k)\<lparr>stopEventPending := False\<rparr>]"
  have idle: "\<forall>i < length ?js. \<not> active (?js ! i)"
  proof (intro allI impI)
    fix i assume "i < length ?js"
    then have i: "i < length js" by simp
    show "\<not> active (?js ! i)"
      using i fin others[OF i] stopEvent.hyps(2) by (cases "i = k") simp_all
  qed
  have q': "\<forall>i < length ?js. stopEventPending (?js ! i) \<longrightarrow>
           \<not> scheduled (?js ! i) \<and> recorder (?js ! i) = inactive"
    using q stopEvent.hyps(2) by (auto simp: nth_list_update)
  show ?case
    unfolding exclusive_def using idle q' by blast
qed

text \<open>The example pages are pages of a run.\<close>

lemma loadedPage_reachable: "reachable b loadedPage []"
proof -
  have "reachable b (initialPage\<lparr>state := handleFileChange (Some ''song.mp3'') (Some exampleBuffer)
      (state initialPage)\<rparr>) []"
    by (rule reachable.fileChange[OF reachable.mount])
  then have "reachable b (render (initialPage\<lparr>state := handleFileChange (Some ''song.mp3'')
      (Some exampleBuffer) (state initialPage)\<rparr>)) []"
    by (rule reachable.rerender)
  then show ?thesis
    by (simp add: render_def initialPage_def loadedPage_def loadedApp_def)
qed

lemma firstClick_eq:
  "firstClick = (loadedPage\<lparr>state := fst startedExport\<rparr>, Some (snd startedExport))"
  by (simp add: firstClick_def clickCreateVideo_def loadedPage_def exportButtonEnabled_def
      loadedApp_fields startedExport_def handleExport_def)

lemma secondClick_eq:
  "secondClick = (loadedPage\<lparr>state := fst startedExport\<rparr>, Some (snd startedExport))"
  by (simp add: secondClick_def firstClick_eq clickCreateVideo_def loadedPage_def
      exportButtonEnabled_def loadedApp_fields startedExport_def handleExport_def)

lemma startedExport_active:
  "recorder (snd startedExport) = recording" "active (snd startedExport)"
  by (simp_all add: startedExport_def handleExport_def loadedApp_fields active_def)

lemma firstClick_reachable: "reachable b (fst firstClick) [snd startedExport]"
proof -
  have "b \<longrightarrow> isExporting (view loadedPage) = isExporting (state loadedPage)"
    by (simp add: loadedPage_def)
  from reachable.click[OF loadedPage_reachable this, of "fst firstClick" "snd firstClick"]
  show ?thesis by (simp add: firstClick_def[symmetric]) (simp add: firstClick_eq)
qed

lemma secondClick_reachable:
  "reachable False (fst secondClick) [snd startedExport, snd startedExport]"
proof -
  have "False \<longrightarrow> isExporting (view (fst firstClick)) = isExporting (state (fst firstClick))"
    by simp
  from reachable.click[OF firstClick_reachable this, of "fst secondClick" "snd secondClick"]
  show ?thesis by (simp add: secondClick_def[symmetric]) (simp add: secondClick_eq)
qed

lemma exportingPage_reachable: "reachable b exportingPage [snd startedExport]"
  unfolding exportingPage_def by (rule reachable.rerender[OF firstClick_reachable])

section \<open>The renderer as called by the page\<close>

text \<open>
  C7. Every call of the renderer by the page is a function of exactly its signal, position,
  snapshot and configuration (style, preset, transparency). Take any two pages of any two
  runs at which a call site of \<open>drawWaveform\<close> can be reached, that is, whose rendered state
  has a decoded signal (the guard of \<open>animate\<close> and of the effect) or where an export was
  started (the call in \<open>recordAnimation\<close>), and let each call \<open>drawWaveform\<close> on its canvas
  with the same signal, position, style, preset of at least one colour (as each of
  \<open>COLOR_PRESETS\<close> has), transparency and snapshot. Both calls take place and
  leave the same frame, or throw the same exception: nothing else of the page, neither
  the previous content or pen of the canvas nor any other state or ref, has an influence.
  The analyser ref that the Equalizer style reads is the same \<open>fftSize = 2048\<close> node at
  every such call.
\<close>

theorem page_frame_determined_by_render_inputs:
  assumes r1: "reachable inStep1 p1 js1" and r2: "reachable inStep2 p2 js2"
    and g1: "audioBuffer (view p1) \<noteq> None \<or> js1 \<noteq> []"
    and g2: "audioBuffer (view p2) \<noteq> None \<or> js2 \<noteq> []"
    and ne: "colors preset \<noteq> []"
  shows "\<exists>r1 r2. renderCall p1 signal position style preset isTransparentBg snapshot = Some r1
           \<and> renderCall p2 signal position style preset isTransparentBg snapshot = Some r2
           \<and> frameOf r1 = frameOf r2"
proof -
  from reachable_page[OF r1] g1 obtain c1 where c1: "canvasRef (state p1) = Some c1"
    "width c1 = CANVAS_WIDTH" "height c1 = CANVAS_HEIGHT" "globalAlpha c1 = 1"
    and a1: "analyserNode (state p1) = Some \<lparr>fftSize = 2048\<rparr>"
    by (auto simp: pageCanvas_def sessionAnalyser_def split: option.splits)
  from reachable_page[OF r2] g2 obtain c2 where c2: "canvasRef (state p2) = Some c2"
    "width c2 = CANVAS_WIDTH" "height c2 = CANVAS_HEIGHT" "globalAlpha c2 = 1"
    and a2: "analyserNode (state p2) = Some \<lparr>fftSize = 2048\<rparr>"
    by (auto simp: pageCanvas_def sessionAnalyser_def split: option.splits)
  have "frameOf (drawWaveform (analyserNode (state p1)) c1 signal position style preset
            isTransparentBg snapshot)
      = frameOf (drawWaveform (analyserNode (state p2)) c2 signal position style preset
            isTransparentBg snapshot)"
    by (rule drawWaveform_frame_determined) (simp_all add: c1 c2 a1 a2 ne)
  then show ?thesis by (simp add: renderCall_def c1 c2)
qed

text \<open>
  The theorem for the page that shows the loaded example signal and the page that shows
  its running export, each called for the Circle style at position 1 s with the loud
  snapshot.
\<close>

theorem page_frame_determined_by_render_inputs_witness:
  "reachable True loadedPage [] \<and> reachable True exportingPage [snd startedExport]
   \<and> audioBuffer (view loadedPage) \<noteq> None \<and> [snd startedExport] \<noteq> []
   \<and> colors (COLOR_PRESETS ! 0) \<noteq> []
   \<and> (\<exists>r1 r2. renderCall loadedPage exampleBuffer 1 Circle (COLOR_PRESETS ! 0) False
                  (Some loudSnapshot) = Some r1
           \<and> renderCall exportingPage exampleBuffer 1 Circle (COLOR_PRESETS ! 0) False
                  (Some loudSnapshot) = Some r2
           \<and> frameOf r1 = frameOf r2)"
proof -
  have a: "audioBuffer (view loadedPage) \<noteq> None \<or> ([]::ExportJob list) \<noteq> []"
    by (simp add: loadedPage_def loadedApp_fields)
  have b: "audioBuffer (view exportingPage) \<noteq> None \<or> [snd startedExport] \<noteq> []" by simp
  have ne: "colors (COLOR_PRESETS ! 0) \<noteq> []" by (simp add: COLOR_PRESETS_def)
  from page_frame_determined_by_render_inputs[where signal=exampleBuffer and position=1
      and style=Circle and isTransparentBg=False and snapshot="Some loudSnapshot",
      OF loadedPage_reachable exportingPage_reachable a b ne]
  show ?thesis
    using loadedPage_reachable[of True] exportingPage_reachable[of True] ne
    by (simp add: loadedPage_def loadedApp_fields)
qed

section \<open>One export at a time\<close>

text \<open>
  C1, as amended. Take a run in which every click on \<open>Create Video\<close> finds the page rendered
  from the current \<open>isExporting\<close>. At every page of it: no two exports are active together;
  \<open>isExporting\<close> is set while an export is active; a click on \<open>Create Video\<close> while an export
  is active and the page shows the current \<open>isExporting\<close> starts nothing and changes neither
  the state (so neither the progress) nor the export; and whenever a click starts an
  export, the page showed \<open>isExporting\<close> false, the click sets it, and the new export is
  active. The request is refused by the absence of the button; no error is raised.
\<close>

theorem export_click_ignored_once_rendered:
  assumes r: "reachable True p js"
  shows "(\<forall>i < length js. \<forall>k < length js. active (js ! i) \<longrightarrow> active (js ! k) \<longrightarrow> i = k)
     \<and> ((\<exists>i < length js. active (js ! i)) \<longrightarrow> isExporting (state p))
     \<and> ((\<exists>i < length js. active (js ! i)) \<and> isExporting (view p) = isExporting (state p)
          \<longrightarrow> clickCreateVideo p = (p, None))
     \<and> (\<forall>p' j. clickCreateVideo p = (p', Some j)
          \<longrightarrow> \<not> isExporting (view p) \<and> isExporting (state p') \<and> active j)"
proof -
  from reachable_exclusive[OF r] have e: "exclusive p js" by simp
  then have u: "\<forall>i < length js. \<forall>k < length js. active (js ! i) \<longrightarrow> active (js ! k) \<longrightarrow> i = k"
    and x: "(\<exists>i < length js. active (js ! i)) \<longrightarrow> isExporting (state p)"
    by (simp_all add: exclusive_def)
  have g: "clickCreateVideo p = (p, None)"
    if "(\<exists>i < length js. active (js ! i)) \<and> isExporting (view p) = isExporting (state p)"
    using that x by (simp add: clickCreateVideo_def exportButtonEnabled_def)
  have s: "\<not> isExporting (view p) \<and> isExporting (state p') \<and> active j"
    if "clickCreateVideo p = (p', Some j)" for p' j
    using click_result[OF that] by (auto simp: exportButtonEnabled_def active_def)
  from u x g s show ?thesis by blast
qed

text \<open>
  The theorem for the page that shows the running example export, where a click is
  ignored, and for the page that shows the loaded signal, where a click starts that
  export.
\<close>

theorem export_click_ignored_once_rendered_witness:
  "reachable True exportingPage [snd startedExport]
   \<and> active ([snd startedExport] ! 0)
   \<and> isExporting (view exportingPage) \<and> isExporting (state exportingPage)
   \<and> clickCreateVideo exportingPage = (exportingPage, None)
   \<and> reachable True loadedPage []
   \<and> clickCreateVideo loadedPage = (fst firstClick, Some (snd startedExport))
   \<and> \<not> isExporting (view loadedPage) \<and> isExporting (state (fst firstClick))"
proof -
  have v: "isExporting (view exportingPage)" "isExporting (state exportingPage)"
    by (simp_all add: exportingPage_def render_def firstClick_eq startedExport_fields)
  have c: "clickCreateVideo loadedPage = (fst firstClick, Some (snd startedExport))"
    using firstClick_eq by (simp add: firstClick_def)
  from export_click_ignored_once_rendered[OF exportingPage_reachable]
    export_click_ignored_once_rendered[OF loadedPage_reachable]
  show ?thesis
    using exportingPage_reachable[of True] loadedPage_reachable[of True] v c
      startedExport_active(2)
    by auto
qed

text \<open>
  C1 as stated fails. \<open>handleExport\<close> has no guard on \<open>isExporting\<close>, and the button is in the
  page until the next render: after a first click has set \<open>isExporting\<close> and started a
  recorder, a second click on the same page, not yet rendered again, is not refused. It
  starts a second export, and both are active.
\<close>

theorem second_click_before_rerender_counterexample:
  "reachable False (fst firstClick) [snd startedExport]
   \<and> isExporting (state (fst firstClick)) \<and> recorder (snd startedExport) = recording
   \<and> clickCreateVideo (fst firstClick) = (fst secondClick, Some (snd startedExport))
   \<and> reachable False (fst secondClick) [snd startedExport, snd startedExport]
   \<and> active ([snd startedExport, snd startedExport] ! 0)
   \<and> active ([snd startedExport, snd startedExport] ! 1)"
proof -
  have c: "clickCreateVideo (fst firstClick) = (fst secondClick, Some (snd startedExport))"
    using secondClick_eq by (simp add: secondClick_def)
  have e: "isExporting (state (fst firstClick))"
    by (simp add: firstClick_eq startedExport_fields)
  from firstClick_reachable[of False] secondClick_reachable c e startedExport_active
  show ?thesis by simp
qed

end
